theory Spec2Isabelle
  imports Complex_Main "HOL-Library.Sublist"
begin

section \<open>SyncStream: the client synchronisation engine of static/script.js\<close>

text \<open>
  The script is a set of event handlers over mutable globals, the page's DOM, the browser's
  timers and one WebSocket. The embedding threads one record of all of that through every
  handler. What the handlers do to the outside world (adapter calls, frames sent, sockets
  closed and created) is appended to a trace, in the order of the statements.

  Playback positions are JavaScript numbers; they are modelled as reals, so the rounding of
  IEEE doubles is not part of the model. \<open>Date.now()\<close> is an integer number of
  milliseconds and is passed to the handlers that read it.
\<close>

subsection \<open>Strings\<close>

text \<open>
  A JavaScript string is a sequence of UTF-16 code units, and \<open>length\<close> counts them.
  \<open>js\<close> embeds a literal.
\<close>

type_synonym jsstring = "nat list"

definition js :: "string \<Rightarrow> jsstring" where
  "js cs = map of_char cs"

text \<open>\<open>String.prototype.trim\<close>: white space and line terminators of ECMAScript.\<close>

definition isWhiteSpace :: "nat \<Rightarrow> bool" where
  "isWhiteSpace c \<longleftrightarrow>
     c \<in> {9, 10, 11, 12, 13, 32, 160, 5760, 8232, 8233, 8239, 8287, 12288, 65279}
     \<or> (8192 \<le> c \<and> c \<le> 8202)"

definition trim :: "jsstring \<Rightarrow> jsstring" where
  "trim s = rev (dropWhile isWhiteSpace (rev (dropWhile isWhiteSpace s)))"

subsection \<open>Data\<close>

text \<open>
  \<open>media.type\<close> is a string on the wire; \<open>loadMedia\<close> tests it against three literals and
  treats everything else as a direct file.
\<close>

datatype media_type = Youtube | TwitchVod | TwitchLive | DirectFile

record media =
  mtype :: media_type
  mid :: jsstring
  murl :: jsstring

datatype adapter_call = SeekTo real | Play | Pause

text \<open>The \<open><video id="directVideo"></video>\<close> element, as far as the script reads and writes it.\<close>

record video =
  currentTime :: real
  paused :: bool

text \<open>
  The \<open>YT.Player\<close> object. Its methods exist only once the widget has reported ready
  (\<open>apiReady\<close>); the script tests for them with \<open>ytPlayer?.playVideo\<close> and the like.
  Commands are posted to the embedded frame (\<open>posted\<close>); what \<open>getCurrentTime\<close> and
  \<open>getPlayerState\<close> return changes only when the frame reports back.
\<close>

record yt_player =
  apiReady :: bool
  ytTime :: real
  ytState :: int
  posted :: "adapter_call list"

datatype ready_state = CONNECTING | OPEN | CLOSING | CLOSED

record websocket =
  wsId :: nat
  readyState :: ready_state

datatype callback =
  CbConnect | CbPing | CbHostReport | CbSyncPoll | CbClearRemote | CbHideToast | CbCopyLabel

record timer =
  tid :: nat
  repeating :: bool
  delay :: nat
  cb :: callback

datatype status_state = Disconnected | Connected | Error

text \<open>Frames the client sends.\<close>

datatype out_msg =
    Join jsstring
  | Ping int
  | Queue jsstring jsstring
  | Skip jsstring
  | OutChat jsstring jsstring
  | OutPlay real jsstring
  | OutPause real jsstring
  | OutSeek real
  | Ended
  | HostPosition real
  | SyncRequest

text \<open>Frames the relay sends, after \<open>JSON.parse\<close>; \<open>Other\<close> is any type the switch has no case for.\<close>

datatype msg =
    Pong int
  | State int "media list" bool "media option" real bool
  | HostUpdate bool
  | Load "media list" "media option"
  | QueueUpdate "media list" "jsstring option"
  | MsgPlay real "jsstring option"
  | MsgPause real "jsstring option"
  | MsgSeek real
  | SyncResponse real bool
  | Viewers int
  | Chat jsstring jsstring
  | System jsstring
  | Other

text \<open>
  The trace. An adapter call is recorded with the value \<open>isRemoteAction\<close> has at the moment
  of the call.
\<close>

datatype action =
    Adapter adapter_call bool
  | Send out_msg
  | WsClose nat
  | WsNew nat jsstring

text \<open>Child nodes of \<open>#chatMessages\<close>: the elements \<open>addChatMessage\<close> appends, and text nodes of the page's markup.\<close>

datatype node =
    SystemMsg jsstring
  | UserMsg jsstring jsstring
  | TextNode

record state =
  socket :: "websocket option"
  isRemoteAction :: bool
  lastSentSeek :: int
  pingInterval :: "nat option"
  syncInterval :: "nat option"
  latency :: real
  queue :: "media list"
  currentMedia :: "media option"
  ytPlayer :: "yt_player option"
  ytReady :: bool
  isHost :: bool
  roomInput :: jsstring
  nickInput :: jsstring
  urlInput :: jsstring
  chatInput :: jsstring
  statusText :: jsstring
  statusDot :: status_state
  addBtnDisabled :: bool
  chatPanelActive :: bool
  playerActive :: bool
  directVideo :: "video option"
  autoplayAllowed :: bool
  chatMessages :: "node list"
  toastText :: jsstring
  toastShown :: bool
  copyLabel :: jsstring
  viewers :: int
  timers :: "timer list"
  nextTimer :: nat
  nextSocket :: nat
  trace :: "action list"

definition SYNC_TOLERANCE :: real where
  "SYNC_TOLERANCE = 3.0"

definition HOST_REPORT_INTERVAL :: nat where
  "HOST_REPORT_INTERVAL = 5000"

definition SYNC_CHECK_INTERVAL :: nat where
  "SYNC_CHECK_INTERVAL = 10000"

subsection \<open>Browser services\<close>

text \<open>
  \<open>setTimeout\<close> and \<open>setInterval\<close> hand out fresh handles; \<open>clearInterval\<close> of \<open>null\<close> or
  of a handle no longer active does nothing.
\<close>

definition setTimeout :: "callback \<Rightarrow> nat \<Rightarrow> state \<Rightarrow> state" where
  "setTimeout c ms s =
     s\<lparr>timers := timers s @ [\<lparr>tid = nextTimer s, repeating = False, delay = ms, cb = c\<rparr>],
       nextTimer := Suc (nextTimer s)\<rparr>"

definition setInterval :: "callback \<Rightarrow> nat \<Rightarrow> state \<Rightarrow> state" where
  "setInterval c ms s =
     s\<lparr>timers := timers s @ [\<lparr>tid = nextTimer s, repeating = True, delay = ms, cb = c\<rparr>],
       nextTimer := Suc (nextTimer s)\<rparr>"

definition clearInterval :: "nat option \<Rightarrow> state \<Rightarrow> state" where
  "clearInterval h s =
     (case h of
        None \<Rightarrow> s
      | Some i \<Rightarrow> s\<lparr>timers := filter (\<lambda>t. tid t \<noteq> i) (timers s)\<rparr>)"

text \<open>\<open>socket?.readyState === WebSocket.OPEN\<close>\<close>

definition socketOpen :: "state \<Rightarrow> bool" where
  "socketOpen s = (case socket s of None \<Rightarrow> False | Some w \<Rightarrow> readyState w = OPEN)"

definition send :: "out_msg \<Rightarrow> state \<Rightarrow> state" where
  "send m s = s\<lparr>trace := trace s @ [Send m]\<rparr>"

subsection \<open>Display helpers\<close>

definition getNick :: "state \<Rightarrow> jsstring" where
  "getNick s = (if trim (nickInput s) = [] then js ''Guest'' else trim (nickInput s))"

definition setStatus :: "jsstring \<Rightarrow> status_state \<Rightarrow> state \<Rightarrow> state" where
  "setStatus text st s = s\<lparr>statusText := text, statusDot := st\<rparr>"

definition showToast :: "jsstring \<Rightarrow> state \<Rightarrow> state" where
  "showToast m s = setTimeout CbHideToast 2000 (s\<lparr>toastText := m, toastShown := True\<rparr>)"

definition updateHostIndicator :: "state \<Rightarrow> state" where
  "updateHostIndicator s =
     (if socketOpen s
      then setStatus (js ''Connected'' @ (if isHost s then js '' (Host)'' else [])) Connected s
      else s)"

text \<open>
  \<open>addChatMessage\<close>: append one element, then remove first children while more than 100
  element children remain. \<open>children\<close> counts elements only; \<open>firstChild\<close> is any node.
  The colour and the escaping of the rendered line are not modelled.
\<close>

definition isElement :: "node \<Rightarrow> bool" where
  "isElement n = (n \<noteq> TextNode)"

definition children :: "node list \<Rightarrow> node list" where
  "children ns = filter isElement ns"

function removeOld :: "node list \<Rightarrow> node list" where
  "removeOld ns = (if length (children ns) > 100 then removeOld (tl ns) else ns)"
  by pat_completeness auto
termination
proof (relation "measure length")
  show "wf (measure length)" by simp
next
  fix ns :: "node list"
  assume "100 < length (children ns)"
  then have "ns \<noteq> []" by (auto simp: children_def)
  then show "(tl ns, ns) \<in> measure length" by (cases ns) simp_all
qed

declare removeOld.simps [simp del]

definition addChatMessage :: "jsstring \<Rightarrow> jsstring \<Rightarrow> bool \<Rightarrow> state \<Rightarrow> state" where
  "addChatMessage nick text isSystem s =
     s\<lparr>chatMessages :=
         removeOld (chatMessages s @ [if isSystem then SystemMsg text else UserMsg nick text])\<rparr>"

subsection \<open>The playback adapter\<close>

text \<open>
  Each of the five operations goes to the YouTube player if the method is there, and to the
  video element if there is one in the document. \<open>v.play()\<close> unpauses the element unless the
  browser refuses playback (the rejection is swallowed by \<open>.catch\<close>).
\<close>

definition postYT :: "adapter_call \<Rightarrow> state \<Rightarrow> state" where
  "postYT c s =
     s\<lparr>ytPlayer :=
         map_option (\<lambda>p. if apiReady p then p\<lparr>posted := posted p @ [c]\<rparr> else p) (ytPlayer s)\<rparr>"

definition logCall :: "adapter_call \<Rightarrow> state \<Rightarrow> state" where
  "logCall c s = s\<lparr>trace := trace s @ [Adapter c (isRemoteAction s)]\<rparr>"

definition playMedia :: "state \<Rightarrow> state" where
  "playMedia s =
     (postYT Play (logCall Play s))
       \<lparr>directVideo :=
          map_option (\<lambda>v. if autoplayAllowed s then v\<lparr>paused := False\<rparr> else v) (directVideo s)\<rparr>"

definition pauseMedia :: "state \<Rightarrow> state" where
  "pauseMedia s =
     (postYT Pause (logCall Pause s))
       \<lparr>directVideo := map_option (\<lambda>v. v\<lparr>paused := True\<rparr>) (directVideo s)\<rparr>"

definition seekTo :: "real \<Rightarrow> state \<Rightarrow> state" where
  "seekTo time s =
     (postYT (SeekTo time) (logCall (SeekTo time) s))
       \<lparr>directVideo := map_option (\<lambda>v. v\<lparr>currentTime := time\<rparr>) (directVideo s)\<rparr>"

definition ytUsable :: "state \<Rightarrow> yt_player option" where
  "ytUsable s =
     (case ytPlayer s of None \<Rightarrow> None | Some p \<Rightarrow> if apiReady p then Some p else None)"

definition getPosition :: "state \<Rightarrow> real" where
  "getPosition s =
     (case ytUsable s of
        Some p \<Rightarrow> ytTime p
      | None \<Rightarrow> (case directVideo s of Some v \<Rightarrow> currentTime v | None \<Rightarrow> 0))"

definition isPaused :: "state \<Rightarrow> bool" where
  "isPaused s =
     (case ytUsable s of
        Some p \<Rightarrow> ytState p = 2 \<or> ytState p = 5 \<or> ytState p = - 1
      | None \<Rightarrow> (case directVideo s of Some v \<Rightarrow> paused v | None \<Rightarrow> True))"

text \<open>
  \<open>loadMedia\<close> empties the player container (which removes a video element) and builds the
  backend for the item. It does not reset \<open>ytPlayer\<close>; only \<open>clearPlayer\<close> does.
\<close>

definition loadMedia :: "media \<Rightarrow> state \<Rightarrow> state" where
  "loadMedia m s =
     (let s1 = s\<lparr>currentMedia := Some m, playerActive := True, directVideo := None\<rparr> in
      case mtype m of
        Youtube \<Rightarrow>
          if ytReady s1
          then s1\<lparr>ytPlayer := Some \<lparr>apiReady = False, ytTime = 0, ytState = - 1, posted = []\<rparr>\<rparr>
          else s1
      | TwitchVod \<Rightarrow> s1
      | TwitchLive \<Rightarrow> s1
      | DirectFile \<Rightarrow> s1\<lparr>directVideo := Some \<lparr>currentTime = 0, paused = True\<rparr>\<rparr>)"

definition clearPlayer :: "state \<Rightarrow> state" where
  "clearPlayer s =
     s\<lparr>directVideo := None, playerActive := False, ytPlayer := None, currentMedia := None\<rparr>"

subsection \<open>Cadence\<close>

definition startSyncIntervals :: "state \<Rightarrow> state" where
  "startSyncIntervals s =
     (let s1 = clearInterval (syncInterval s) s in
      if isHost s1
      then (setInterval CbHostReport HOST_REPORT_INTERVAL s1)\<lparr>syncInterval := Some (nextTimer s1)\<rparr>
      else (setInterval CbSyncPoll SYNC_CHECK_INTERVAL s1)\<lparr>syncInterval := Some (nextTimer s1)\<rparr>)"

subsection \<open>Inbound messages\<close>

definition nickOr :: "jsstring option \<Rightarrow> jsstring \<Rightarrow> jsstring \<Rightarrow> jsstring" where
  "nickOr nick rest dflt =
     (case nick of
        None \<Rightarrow> dflt
      | Some n \<Rightarrow> if n = [] then dflt else n @ rest)"

definition clearSoon :: "state \<Rightarrow> state" where
  "clearSoon s = setTimeout CbClearRemote 100 s"

fun handleMessage :: "int \<Rightarrow> msg \<Rightarrow> state \<Rightarrow> state" where
  "handleMessage now (Pong t) s = s\<lparr>latency := real_of_int (now - t) / 2\<rparr>"
| "handleMessage now (State n q h cur pos playing) s =
     (let s1 = startSyncIntervals (updateHostIndicator (s\<lparr>viewers := n, queue := q, isHost := h\<rparr>)) in
      case cur of
        None \<Rightarrow> s1
      | Some m \<Rightarrow>
          (let s2 = loadMedia m s1;
               s3 = (if pos > 0 then seekTo pos s2 else s2)
           in if playing then playMedia s3 else s3))"
| "handleMessage now (HostUpdate h) s =
     (let s1 = updateHostIndicator (s\<lparr>isHost := h\<rparr>) in
      if isHost s \<noteq> isHost s1
      then (let s2 = startSyncIntervals s1 in
            if isHost s2 then showToast (js ''You are now the host'') s2 else s2)
      else s1)"
| "handleMessage now (Load q cur) s =
     (case cur of
        Some m \<Rightarrow> showToast (js ''Now playing'') (loadMedia m (s\<lparr>queue := q\<rparr>))
      | None \<Rightarrow> showToast (js ''Queue empty'') (clearPlayer (s\<lparr>queue := q\<rparr>)))"
| "handleMessage now (QueueUpdate q nick) s =
     (case nick of
        None \<Rightarrow> s\<lparr>queue := q\<rparr>
      | Some n \<Rightarrow>
          if n = [] then s\<lparr>queue := q\<rparr>
          else addChatMessage [] (n @ js '' added to queue'') True (s\<lparr>queue := q\<rparr>))"
| "handleMessage now (MsgPlay pos nick) s =
     clearSoon (showToast (nickOr nick (js '' played'') (js ''Playing''))
       (playMedia (seekTo (pos + latency s / 1000) (s\<lparr>isRemoteAction := True\<rparr>))))"
| "handleMessage now (MsgPause pos nick) s =
     clearSoon (showToast (nickOr nick (js '' paused'') (js ''Paused''))
       (seekTo pos (pauseMedia (s\<lparr>isRemoteAction := True\<rparr>))))"
| "handleMessage now (MsgSeek pos) s =
     (if \<bar>getPosition s - pos\<bar> > SYNC_TOLERANCE
      then clearSoon (showToast (js ''Synced'') (seekTo pos (s\<lparr>isRemoteAction := True\<rparr>)))
      else s)"
| "handleMessage now (SyncResponse pos playing) s =
     (if \<not> isHost s \<and> currentMedia s \<noteq> None
      then (let s1 = (if \<bar>getPosition s - pos\<bar> > SYNC_TOLERANCE
                      then clearSoon (showToast (js ''Synced to host'')
                             (seekTo pos (s\<lparr>isRemoteAction := True\<rparr>)))
                      else s)
            in if playing \<and> isPaused s1
               then clearSoon (playMedia (s1\<lparr>isRemoteAction := True\<rparr>))
               else if \<not> playing \<and> \<not> isPaused s1
               then clearSoon (pauseMedia (s1\<lparr>isRemoteAction := True\<rparr>))
               else s1)
      else s)"
| "handleMessage now (Viewers n) s = s\<lparr>viewers := n\<rparr>"
| "handleMessage now (Chat nick text) s = addChatMessage nick text False s"
| "handleMessage now (System text) s = addChatMessage [] text True s"
| "handleMessage now Other s = s"

subsection \<open>Events the backends originate\<close>

text \<open>
  The listeners \<open>loadMedia\<close> attaches to the video element. Each closes over its own element,
  which is the argument here. \<open>onYTStateChange\<close> reads the position through the global
  \<open>ytPlayer\<close>; where that is \<open>null\<close> or without methods the call throws and nothing is sent.
\<close>

definition onVideoPlay :: "video \<Rightarrow> state \<Rightarrow> state" where
  "onVideoPlay v s =
     (if \<not> isRemoteAction s \<and> socketOpen s
      then send (OutPlay (currentTime v) (getNick s)) s
      else s)"

definition onVideoPause :: "video \<Rightarrow> state \<Rightarrow> state" where
  "onVideoPause v s =
     (if \<not> isRemoteAction s \<and> socketOpen s
      then send (OutPause (currentTime v) (getNick s)) s
      else s)"

definition onVideoSeeked :: "int \<Rightarrow> video \<Rightarrow> state \<Rightarrow> state" where
  "onVideoSeeked now v s =
     (if \<not> isRemoteAction s \<and> socketOpen s \<and> now - lastSentSeek s > 300
      then send (OutSeek (currentTime v)) (s\<lparr>lastSentSeek := now\<rparr>)
      else s)"

definition onVideoEnded :: "state \<Rightarrow> state" where
  "onVideoEnded s = (if socketOpen s then send Ended s else s)"

text \<open>\<open>YT.PlayerState\<close>: ENDED is 0, PLAYING is 1, PAUSED is 2.\<close>

definition onYTStateChange :: "int \<Rightarrow> state \<Rightarrow> state" where
  "onYTStateChange d s =
     (if isRemoteAction s \<or> socket s = None \<or> \<not> socketOpen s then s
      else if d = 1 then
        (case ytUsable s of None \<Rightarrow> s | Some p \<Rightarrow> send (OutPlay (ytTime p) (getNick s)) s)
      else if d = 2 then
        (case ytUsable s of None \<Rightarrow> s | Some p \<Rightarrow> send (OutPause (ytTime p) (getNick s)) s)
      else if d = 0 then send Ended s
      else s)"

subsection \<open>Connection\<close>

text \<open>
  \<open>socket.close()\<close> starts the closing handshake; the close event comes later, as an event
  of its own. \<open>new WebSocket(url)\<close> throws a SyntaxError when the URL has a fragment, which
  here is the case when the code contains \<open>#\<close> (code unit 35); the rest of \<open>connect\<close> is
  then not run. The scheme and the host of the URL come from the page's location and are
  left out of the trace, which records the code.
\<close>

definition wsClose :: "websocket \<Rightarrow> state \<Rightarrow> state" where
  "wsClose w s =
     s\<lparr>socket := Some (w\<lparr>readyState :=
           (if readyState w = CLOSING \<or> readyState w = CLOSED then readyState w else CLOSING)\<rparr>),
       trace := trace s @ [WsClose (wsId w)]\<rparr>"

definition newWebSocket :: "jsstring \<Rightarrow> state \<Rightarrow> state" where
  "newWebSocket code s =
     (if 35 \<in> set code then s
      else s\<lparr>socket := Some \<lparr>wsId = nextSocket s, readyState = CONNECTING\<rparr>,
             nextSocket := Suc (nextSocket s),
             trace := trace s @ [WsNew (nextSocket s) code]\<rparr>)"

definition connect :: "state \<Rightarrow> state" where
  "connect s =
     (if length (trim (roomInput s)) \<noteq> 6 then setStatus (js ''Enter 6-char code'') Error s
      else newWebSocket (trim (roomInput s))
             (setStatus (js ''Connecting...'') Disconnected
                (case socket s of None \<Rightarrow> s | Some w \<Rightarrow> wsClose w s)))"

definition onopen :: "int \<Rightarrow> state \<Rightarrow> state" where
  "onopen now s =
     (let s1 = (setStatus (js ''Connected'') Connected s)
                 \<lparr>addBtnDisabled := False, chatPanelActive := True\<rparr>;
          s2 = send (Join (getNick s1)) s1;
          s3 = (setInterval CbPing 5000 s2)\<lparr>pingInterval := Some (nextTimer s2)\<rparr>
      in send (Ping now) s3)"

definition onclose :: "state \<Rightarrow> state" where
  "onclose s =
     (clearInterval (syncInterval s)
        (clearInterval (pingInterval s)
           ((setStatus (js ''Disconnected'') Disconnected s)\<lparr>addBtnDisabled := True\<rparr>)))
     \<lparr>isHost := False\<rparr>"

definition onerror :: "state \<Rightarrow> state" where
  "onerror s = setStatus (js ''Connection failed'') Error s"

subsection \<open>Timers\<close>

fun runCallback :: "int \<Rightarrow> callback \<Rightarrow> state \<Rightarrow> state" where
  "runCallback now CbConnect s = connect s"
| "runCallback now CbPing s = (if socketOpen s then send (Ping now) s else s)"
| "runCallback now CbHostReport s =
     (if socketOpen s \<and> currentMedia s \<noteq> None then send (HostPosition (getPosition s)) s else s)"
| "runCallback now CbSyncPoll s =
     (if socketOpen s \<and> currentMedia s \<noteq> None then send SyncRequest s else s)"
| "runCallback now CbClearRemote s = s\<lparr>isRemoteAction := False\<rparr>"
| "runCallback now CbHideToast s = s\<lparr>toastShown := False\<rparr>"
| "runCallback now CbCopyLabel s = s\<lparr>copyLabel := js ''Copy''\<rparr>"

text \<open>A timer that is due fires: a timeout is used up, an interval stays armed.\<close>

definition fireTimer :: "int \<Rightarrow> nat \<Rightarrow> state \<Rightarrow> state" where
  "fireTimer now i s =
     (case find (\<lambda>t. tid t = i) (timers s) of
        None \<Rightarrow> s
      | Some t \<Rightarrow>
          runCallback now (cb t)
            (if repeating t then s else s\<lparr>timers := filter (\<lambda>t. tid t \<noteq> i) (timers s)\<rparr>))"

subsection \<open>The room-code field and the other controls\<close>

text \<open>
  \<open>generateCode\<close> draws six characters; the argument gives the six values of
  \<open>Math.floor(Math.random() * 36)\<close>, each below 36.
\<close>

definition chars :: jsstring where
  "chars = js ''0123456789ABCDEFGHIJKLMNOPQRSTUVWXYZ''"

definition generateCode :: "(nat \<Rightarrow> nat) \<Rightarrow> jsstring" where
  "generateCode rnd = map (\<lambda>i. chars ! (rnd i mod 36)) [0..<6]"

definition isCodeChar :: "nat \<Rightarrow> bool" where
  "isCodeChar c \<longleftrightarrow> (48 \<le> c \<and> c \<le> 57) \<or> (65 \<le> c \<and> c \<le> 90)"

text \<open>The format of a room code: \<open>/^[0-9A-Z]{6}$/\<close>.\<close>

definition validCode :: "jsstring \<Rightarrow> bool" where
  "validCode c \<longleftrightarrow> length c = 6 \<and> list_all isCodeChar c"

text \<open>
  The \<open>room\<close> parameter of the page's URL is taken when it matches \<open>/^[0-9A-Z]{6}$/i\<close>,
  and is upper-cased; a match has ASCII letters and digits only.
\<close>

definition isCodeCharCI :: "nat \<Rightarrow> bool" where
  "isCodeCharCI c \<longleftrightarrow> isCodeChar c \<or> (97 \<le> c \<and> c \<le> 122)"

definition upperAscii :: "nat \<Rightarrow> nat" where
  "upperAscii c = (if 97 \<le> c \<and> c \<le> 122 then c - 32 else c)"

definition initialCode :: "jsstring option \<Rightarrow> (nat \<Rightarrow> nat) \<Rightarrow> jsstring" where
  "initialCode roomParam rnd =
     (case roomParam of
        None \<Rightarrow> generateCode rnd
      | Some p \<Rightarrow>
          if length p = 6 \<and> list_all isCodeCharCI p then map upperAscii p else generateCode rnd)"

text \<open>
  The field's input listener; the argument is the field's text after \<open>toUpperCase()\<close>.
\<close>

definition onRoomInput :: "jsstring \<Rightarrow> state \<Rightarrow> state" where
  "onRoomInput upper s = s\<lparr>roomInput := take 6 (filter isCodeChar upper)\<rparr>"

definition addToQueue :: "state \<Rightarrow> state" where
  "addToQueue s =
     (if trim (urlInput s) = [] \<or> socket s = None \<or> \<not> socketOpen s then s
      else (send (Queue (trim (urlInput s)) (getNick s)) s)\<lparr>urlInput := []\<rparr>)"

definition sendChat :: "state \<Rightarrow> state" where
  "sendChat s =
     (if trim (chatInput s) = [] \<or> socket s = None \<or> \<not> socketOpen s then s
      else (send (OutChat (trim (chatInput s)) (getNick s)) s)\<lparr>chatInput := []\<rparr>)"

definition skip :: "state \<Rightarrow> state" where
  "skip s = (if socketOpen s then send (Skip (getNick s)) s else s)"

text \<open>The copy button of the invite dialog changes its label and restores it two seconds later.\<close>

definition copyLink :: "state \<Rightarrow> state" where
  "copyLink s = setTimeout CbCopyLabel 2000 (s\<lparr>copyLabel := js ''Copied!''\<rparr>)"

subsection \<open>The event loop\<close>

text \<open>
  One event is one run of a handler. Besides the script's own handlers there are the
  changes the browser, the viewer and the embedded widget make without running any of
  the script: the viewer edits a field, the video element's position and paused state
  move, the widget reports its position and state or becomes ready.

  A socket ends in one task of the browser: \<open>readyState\<close> becomes CLOSED, then, if the
  connection failed, the error event is fired, and then the close event. So there are two
  events for the end of a socket: \<open>SocketClose\<close>, which runs the close handler, and
  \<open>SocketError\<close>, which runs the error handler and the close handler after it. Both carry
  the handle of the socket they belong to: a socket that \<open>connect\<close> has replaced still
  fires them, and its handlers work on the globals. Handles are counted from 1.
\<close>

datatype event =
    ClickJoin
  | ClickNewRoom "nat \<Rightarrow> nat"
  | RoomInput jsstring
  | EditNick jsstring
  | EditUrl jsstring
  | EditChat jsstring
  | ClickAdd
  | ClickSend
  | ClickSkip
  | ClickCopy
  | SocketOpen int
  | SocketClose nat
  | SocketError nat
  | SocketMessage int msg
  | TimerFires int nat
  | VideoMoves video
  | VideoPlayEvent
  | VideoPauseEvent
  | VideoSeekedEvent int
  | VideoEndedEvent
  | AutoplayPolicy bool
  | YTApiReady
  | YTPlayerReady
  | YTReports real int
  | YTStateChange int

definition withVideo :: "(video \<Rightarrow> state \<Rightarrow> state) \<Rightarrow> state \<Rightarrow> state" where
  "withVideo h s = (case directVideo s of None \<Rightarrow> s | Some v \<Rightarrow> h v s)"

definition markSocket :: "nat \<Rightarrow> ready_state \<Rightarrow> state \<Rightarrow> state" where
  "markSocket i r s =
     s\<lparr>socket := map_option (\<lambda>w. if wsId w = i then w\<lparr>readyState := r\<rparr> else w) (socket s)\<rparr>"

fun step :: "event \<Rightarrow> state \<Rightarrow> state" where
  "step ClickJoin s = connect s"
| "step (ClickNewRoom rnd) s = connect (s\<lparr>roomInput := generateCode rnd\<rparr>)"
| "step (RoomInput upper) s = onRoomInput upper s"
| "step (EditNick v) s = s\<lparr>nickInput := v\<rparr>"
| "step (EditUrl v) s = s\<lparr>urlInput := v\<rparr>"
| "step (EditChat v) s = s\<lparr>chatInput := v\<rparr>"
| "step ClickAdd s = addToQueue s"
| "step ClickSend s = sendChat s"
| "step ClickSkip s = skip s"
| "step ClickCopy s = copyLink s"
| "step (SocketOpen now) s =
     (case socket s of
        None \<Rightarrow> s
      | Some w \<Rightarrow>
          if readyState w = CONNECTING then onopen now (markSocket (wsId w) OPEN s) else s)"
| "step (SocketClose i) s =
     (if 0 < i \<and> i < nextSocket s then onclose (markSocket i CLOSED s) else s)"
| "step (SocketError i) s =
     (if 0 < i \<and> i < nextSocket s then onclose (onerror (markSocket i CLOSED s)) else s)"
| "step (SocketMessage now m) s = (if socketOpen s then handleMessage now m s else s)"
| "step (TimerFires now i) s = fireTimer now i s"
| "step (VideoMoves v) s = s\<lparr>directVideo := map_option (\<lambda>_. v) (directVideo s)\<rparr>"
| "step VideoPlayEvent s = withVideo onVideoPlay s"
| "step VideoPauseEvent s = withVideo onVideoPause s"
| "step (VideoSeekedEvent now) s = withVideo (onVideoSeeked now) s"
| "step VideoEndedEvent s = withVideo (\<lambda>_. onVideoEnded) s"
| "step (AutoplayPolicy b) s = s\<lparr>autoplayAllowed := b\<rparr>"
| "step YTApiReady s = s\<lparr>ytReady := True\<rparr>"
| "step YTPlayerReady s = s\<lparr>ytPlayer := map_option (\<lambda>p. p\<lparr>apiReady := True\<rparr>) (ytPlayer s)\<rparr>"
| "step (YTReports t st) s =
     s\<lparr>ytPlayer := map_option (\<lambda>p. p\<lparr>ytTime := t, ytState := st\<rparr>) (ytPlayer s)\<rparr>"
| "step (YTStateChange d) s = onYTStateChange d s"

text \<open>
  The state when the script has run to its end: the globals as declared, the room-code
  field set from the URL or drawn, and \<open>setTimeout(connect, 100)\<close> pending. What the page's
  markup decides (the other fields, the status line, the chat box) is taken from \<open>page\<close>.
\<close>

definition init :: "jsstring option \<Rightarrow> (nat \<Rightarrow> nat) \<Rightarrow> state \<Rightarrow> state" where
  "init roomParam rnd page =
     page\<lparr>socket := None, isRemoteAction := False, lastSentSeek := 0, pingInterval := None,
          syncInterval := None, latency := 0, queue := [], currentMedia := None,
          ytPlayer := None, ytReady := False, isHost := False,
          roomInput := initialCode roomParam rnd, directVideo := None, nextSocket := 1,
          timers := [\<lparr>tid = 1, repeating = False, delay = 100, cb = CbConnect\<rparr>],
          nextTimer := 2, trace := []\<rparr>"

inductive reachable :: "state \<Rightarrow> bool" where
  start: "reachable (init roomParam rnd page)"
| after: "reachable s \<Longrightarrow> reachable (step e s)"

definition run :: "event list \<Rightarrow> state \<Rightarrow> state" where
  "run es s = fold step es s"

subsection \<open>Predicates used in the statements\<close>

text \<open>Every active timer has a handle that \<open>setTimeout\<close> and \<open>setInterval\<close> have already given out.\<close>

definition freshHandles :: "state \<Rightarrow> bool" where
  "freshHandles s = list_all (\<lambda>t. tid t < nextTimer s) (timers s)"

text \<open>The cadence timers are the two intervals \<open>startSyncIntervals\<close> arms.\<close>

definition isCadence :: "timer \<Rightarrow> bool" where
  "isCadence t \<longleftrightarrow> cb t = CbHostReport \<or> cb t = CbSyncPoll"

definition cadenceTimers :: "state \<Rightarrow> timer list" where
  "cadenceTimers s = filter isCadence (timers s)"

definition cadenceFor :: "bool \<Rightarrow> timer \<Rightarrow> bool" where
  "cadenceFor host t \<longleftrightarrow>
     repeating t \<and>
     (if host then cb t = CbHostReport \<and> delay t = HOST_REPORT_INTERVAL
      else cb t = CbSyncPoll \<and> delay t = SYNC_CHECK_INTERVAL)"

definition cadenceOk :: "state \<Rightarrow> bool" where
  "cadenceOk s \<longleftrightarrow>
     freshHandles s \<and> distinct (map tid (timers s)) \<and>
     list_all (\<lambda>t. syncInterval s = Some (tid t) \<and> cadenceFor (isHost s) t) (cadenceTimers s)"

text \<open>The part of \<open>cadenceOk\<close> that does not depend on the role.\<close>

definition handlesOk :: "state \<Rightarrow> bool" where
  "handlesOk s \<longleftrightarrow>
     freshHandles s \<and> distinct (map tid (timers s)) \<and>
     list_all (\<lambda>t. syncInterval s = Some (tid t)) (cadenceTimers s)"

text \<open>What the room-code field holds after the input listener: at most six of \<open>0-9A-Z\<close>.\<close>

definition codeField :: "state \<Rightarrow> bool" where
  "codeField s \<longleftrightarrow> list_all isCodeChar (roomInput s) \<and> length (roomInput s) \<le> 6"

text \<open>Playback frames in a trace: the play, pause and seek messages the client has sent.\<close>

fun isPlaybackSend :: "action \<Rightarrow> bool" where
  "isPlaybackSend (Send (OutPlay p n)) = True"
| "isPlaybackSend (Send (OutPause p n)) = True"
| "isPlaybackSend (Send (OutSeek p)) = True"
| "isPlaybackSend a = False"

definition sentPlayback :: "state \<Rightarrow> action list" where
  "sentPlayback s = filter isPlaybackSend (trace s)"

fun isTimerEvent :: "event \<Rightarrow> bool" where
  "isTimerEvent (TimerFires now i) = True"
| "isTimerEvent e = False"

fun isSeekedEvent :: "event \<Rightarrow> bool" where
  "isSeekedEvent (VideoSeekedEvent now) = True"
| "isSeekedEvent e = False"

subsection \<open>A concrete session\<close>

text \<open>
  An empty page, and a viewer who joins a drawn room, receives the room's state with a
  direct file playing, and is ten seconds into it. The heartbeat has measured a round trip
  of 400 ms.
\<close>

definition page0 :: state where
  "page0 =
     \<lparr>socket = None, isRemoteAction = False, lastSentSeek = 0, pingInterval = None,
      syncInterval = None, latency = 0, queue = [], currentMedia = None, ytPlayer = None,
      ytReady = False, isHost = False, roomInput = [], nickInput = [], urlInput = [],
      chatInput = [], statusText = [], statusDot = Disconnected, addBtnDisabled = True,
      chatPanelActive = False, playerActive = False, directVideo = None,
      autoplayAllowed = True, chatMessages = [], toastText = [], toastShown = False,
      copyLabel = js ''Copy'', viewers = 0, timers = [], nextTimer = 1, nextSocket = 1,
      trace = []\<rparr>"

definition film :: media where
  "film = \<lparr>mtype = DirectFile, mid = [], murl = js ''film.mp4''\<rparr>"

definition joined :: state where
  "joined =
     run [TimerFires 0 1, SocketOpen 1000, SocketMessage 1400 (Pong 1000)]
       (init None (\<lambda>_. 0) page0)"

definition watching :: state where
  "watching =
     run [SocketMessage 1500 (State 2 [film] False (Some film) 0 True),
          VideoMoves \<lparr>currentTime = 10, paused = False\<rparr>]
       joined"

definition hosting :: state where
  "hosting = run [SocketMessage 1600 (HostUpdate True)] watching"

text \<open>
  The host presses the join button again, and the new socket opens before the close event
  of the old one has arrived.
\<close>

definition rejoined :: state where
  "rejoined = run [ClickJoin, SocketOpen 2000] hosting"

section \<open>Proofs\<close>

subsection \<open>Looking up a timer\<close>

lemmas adapter_defs = seekTo_def playMedia_def pauseMedia_def postYT_def logCall_def
lemmas timer_defs = setTimeout_def setInterval_def clearInterval_def showToast_def clearSoon_def

lemma find_append_None: "find P xs = None \<Longrightarrow> find P (xs @ ys) = find P ys"
  by (induction xs) (auto split: if_splits)

lemma find_fresh:
  "freshHandles s \<Longrightarrow> find (\<lambda>t. tid t = nextTimer s + k) (timers s) = None"
  by (auto simp: freshHandles_def find_None_iff list_all_iff)

subsection \<open>The concrete session, evaluated\<close>

lemma joined_eq:
  "joined =
     \<lparr>socket = Some \<lparr>wsId = 1, readyState = OPEN\<rparr>, isRemoteAction = False,
      lastSentSeek = 0, pingInterval = Some 2, syncInterval = None, latency = 200,
      queue = [], currentMedia = None, ytPlayer = None, ytReady = False, isHost = False,
      roomInput = js ''000000'', nickInput = [], urlInput = [], chatInput = [],
      statusText = js ''Connected'', statusDot = Connected, addBtnDisabled = False,
      chatPanelActive = True, playerActive = False, directVideo = None,
      autoplayAllowed = True, chatMessages = [], toastText = [], toastShown = False,
      copyLabel = js ''Copy'', viewers = 0,
      timers = [\<lparr>tid = 2, repeating = True, delay = 5000, cb = CbPing\<rparr>],
      nextTimer = 3, nextSocket = 2,
      trace = [WsNew 1 (js ''000000''), Send (Join (js ''Guest'')), Send (Ping 1000)]\<rparr>"
  by (simp add: joined_def run_def init_def page0_def fireTimer_def connect_def trim_def
      initialCode_def generateCode_def chars_def js_def newWebSocket_def setStatus_def
      onopen_def markSocket_def send_def getNick_def setInterval_def socketOpen_def
      isWhiteSpace_def upt_rec)

lemma watching_eq:
  "watching =
     joined\<lparr>syncInterval := Some 3, queue := [film], currentMedia := Some film,
            playerActive := True, directVideo := Some \<lparr>currentTime = 10, paused = False\<rparr>,
            viewers := 2,
            timers := [\<lparr>tid = 2, repeating = True, delay = 5000, cb = CbPing\<rparr>,
                       \<lparr>tid = 3, repeating = True, delay = 10000, cb = CbSyncPoll\<rparr>],
            nextTimer := 4,
            trace := [WsNew 1 (js ''000000''), Send (Join (js ''Guest'')), Send (Ping 1000),
                      Adapter Play False]\<rparr>"
  by (simp add: watching_def run_def joined_eq socketOpen_def startSyncIntervals_def
      updateHostIndicator_def setStatus_def loadMedia_def film_def adapter_defs timer_defs
      SYNC_CHECK_INTERVAL_def js_def)

lemma watching_facts:
  "getPosition watching = 10" "\<not> isPaused watching" "freshHandles watching"
  "nextTimer watching = 4" "\<not> isHost watching" "currentMedia watching = Some film"
  "latency watching = 200" "socketOpen watching" "\<not> isRemoteAction watching"
  "lastSentSeek watching = 0"
  by (simp_all add: watching_eq joined_eq getPosition_def isPaused_def ytUsable_def
      freshHandles_def socketOpen_def)

subsection \<open>What each operation leaves alone\<close>

text \<open>
  One lemma for each operation: the fields the invariants read that the operation does not
  touch, and what it appends to the trace and to the timers.
\<close>

lemma isPaused_frame:
  "isPaused (s\<lparr>isRemoteAction := b\<rparr>) = isPaused s"
  "isPaused (seekTo pos s) = isPaused s"
  "isPaused (showToast m s) = isPaused s"
  "isPaused (clearSoon s) = isPaused s"
  by (auto simp: isPaused_def ytUsable_def adapter_defs timer_defs split: option.splits)

lemma setStatus_frame [simp]:
  "isRemoteAction (setStatus t st s) = isRemoteAction s"
  "lastSentSeek (setStatus t st s) = lastSentSeek s"
  "roomInput (setStatus t st s) = roomInput s"
  "isHost (setStatus t st s) = isHost s"
  "syncInterval (setStatus t st s) = syncInterval s"
  "timers (setStatus t st s) = timers s"
  "nextTimer (setStatus t st s) = nextTimer s"
  "trace (setStatus t st s) = trace s"
  "sentPlayback (setStatus t st s) = sentPlayback s"
  by (simp_all add: setStatus_def sentPlayback_def)

lemma logCall_frame [simp]:
  "isRemoteAction (logCall c s) = isRemoteAction s"
  "lastSentSeek (logCall c s) = lastSentSeek s"
  "roomInput (logCall c s) = roomInput s"
  "isHost (logCall c s) = isHost s"
  "syncInterval (logCall c s) = syncInterval s"
  "timers (logCall c s) = timers s"
  "nextTimer (logCall c s) = nextTimer s"
  "sentPlayback (logCall c s) = sentPlayback s"
  "trace (logCall c s) = trace s @ [Adapter c (isRemoteAction s)]"
  by (simp_all add: logCall_def sentPlayback_def)

lemma postYT_frame [simp]:
  "isRemoteAction (postYT c s) = isRemoteAction s"
  "lastSentSeek (postYT c s) = lastSentSeek s"
  "roomInput (postYT c s) = roomInput s"
  "isHost (postYT c s) = isHost s"
  "syncInterval (postYT c s) = syncInterval s"
  "timers (postYT c s) = timers s"
  "nextTimer (postYT c s) = nextTimer s"
  "trace (postYT c s) = trace s"
  "sentPlayback (postYT c s) = sentPlayback s"
  by (simp_all add: postYT_def sentPlayback_def)

lemma seekTo_frame [simp]:
  "isRemoteAction (seekTo p s) = isRemoteAction s"
  "lastSentSeek (seekTo p s) = lastSentSeek s"
  "roomInput (seekTo p s) = roomInput s"
  "isHost (seekTo p s) = isHost s"
  "syncInterval (seekTo p s) = syncInterval s"
  "timers (seekTo p s) = timers s"
  "nextTimer (seekTo p s) = nextTimer s"
  "sentPlayback (seekTo p s) = sentPlayback s"
  "trace (seekTo p s) = trace s @ [Adapter (SeekTo p) (isRemoteAction s)]"
  by (simp_all add: seekTo_def sentPlayback_def)

lemma playMedia_frame [simp]:
  "isRemoteAction (playMedia s) = isRemoteAction s"
  "lastSentSeek (playMedia s) = lastSentSeek s"
  "roomInput (playMedia s) = roomInput s"
  "isHost (playMedia s) = isHost s"
  "syncInterval (playMedia s) = syncInterval s"
  "timers (playMedia s) = timers s"
  "nextTimer (playMedia s) = nextTimer s"
  "sentPlayback (playMedia s) = sentPlayback s"
  "trace (playMedia s) = trace s @ [Adapter Play (isRemoteAction s)]"
  by (simp_all add: playMedia_def sentPlayback_def)

lemma pauseMedia_frame [simp]:
  "isRemoteAction (pauseMedia s) = isRemoteAction s"
  "lastSentSeek (pauseMedia s) = lastSentSeek s"
  "roomInput (pauseMedia s) = roomInput s"
  "isHost (pauseMedia s) = isHost s"
  "syncInterval (pauseMedia s) = syncInterval s"
  "timers (pauseMedia s) = timers s"
  "nextTimer (pauseMedia s) = nextTimer s"
  "sentPlayback (pauseMedia s) = sentPlayback s"
  "trace (pauseMedia s) = trace s @ [Adapter Pause (isRemoteAction s)]"
  by (simp_all add: pauseMedia_def sentPlayback_def)

lemma updateHostIndicator_frame [simp]:
  "isRemoteAction (updateHostIndicator s) = isRemoteAction s"
  "lastSentSeek (updateHostIndicator s) = lastSentSeek s"
  "roomInput (updateHostIndicator s) = roomInput s"
  "isHost (updateHostIndicator s) = isHost s"
  "syncInterval (updateHostIndicator s) = syncInterval s"
  "timers (updateHostIndicator s) = timers s"
  "nextTimer (updateHostIndicator s) = nextTimer s"
  "trace (updateHostIndicator s) = trace s"
  "sentPlayback (updateHostIndicator s) = sentPlayback s"
  by (simp_all add: updateHostIndicator_def sentPlayback_def)

lemma addChatMessage_frame [simp]:
  "isRemoteAction (addChatMessage n x b s) = isRemoteAction s"
  "lastSentSeek (addChatMessage n x b s) = lastSentSeek s"
  "roomInput (addChatMessage n x b s) = roomInput s"
  "isHost (addChatMessage n x b s) = isHost s"
  "syncInterval (addChatMessage n x b s) = syncInterval s"
  "timers (addChatMessage n x b s) = timers s"
  "nextTimer (addChatMessage n x b s) = nextTimer s"
  "trace (addChatMessage n x b s) = trace s"
  "sentPlayback (addChatMessage n x b s) = sentPlayback s"
  by (simp_all add: addChatMessage_def sentPlayback_def)

lemma loadMedia_frame [simp]:
  "isRemoteAction (loadMedia m s) = isRemoteAction s"
  "lastSentSeek (loadMedia m s) = lastSentSeek s"
  "roomInput (loadMedia m s) = roomInput s"
  "isHost (loadMedia m s) = isHost s"
  "syncInterval (loadMedia m s) = syncInterval s"
  "timers (loadMedia m s) = timers s"
  "nextTimer (loadMedia m s) = nextTimer s"
  "trace (loadMedia m s) = trace s"
  "sentPlayback (loadMedia m s) = sentPlayback s"
  by (simp_all add: loadMedia_def Let_def sentPlayback_def split: media_type.splits)

lemma clearPlayer_frame [simp]:
  "isRemoteAction (clearPlayer s) = isRemoteAction s"
  "lastSentSeek (clearPlayer s) = lastSentSeek s"
  "roomInput (clearPlayer s) = roomInput s"
  "isHost (clearPlayer s) = isHost s"
  "syncInterval (clearPlayer s) = syncInterval s"
  "timers (clearPlayer s) = timers s"
  "nextTimer (clearPlayer s) = nextTimer s"
  "trace (clearPlayer s) = trace s"
  "sentPlayback (clearPlayer s) = sentPlayback s"
  by (simp_all add: clearPlayer_def sentPlayback_def)

lemma markSocket_frame [simp]:
  "isRemoteAction (markSocket i r s) = isRemoteAction s"
  "lastSentSeek (markSocket i r s) = lastSentSeek s"
  "roomInput (markSocket i r s) = roomInput s"
  "isHost (markSocket i r s) = isHost s"
  "syncInterval (markSocket i r s) = syncInterval s"
  "timers (markSocket i r s) = timers s"
  "nextTimer (markSocket i r s) = nextTimer s"
  "trace (markSocket i r s) = trace s"
  "sentPlayback (markSocket i r s) = sentPlayback s"
  by (simp_all add: markSocket_def sentPlayback_def)

lemma wsClose_frame [simp]:
  "isRemoteAction (wsClose w s) = isRemoteAction s"
  "lastSentSeek (wsClose w s) = lastSentSeek s"
  "roomInput (wsClose w s) = roomInput s"
  "isHost (wsClose w s) = isHost s"
  "syncInterval (wsClose w s) = syncInterval s"
  "timers (wsClose w s) = timers s"
  "nextTimer (wsClose w s) = nextTimer s"
  "sentPlayback (wsClose w s) = sentPlayback s"
  "trace (wsClose w s) = trace s @ [WsClose (wsId w)]"
  by (simp_all add: wsClose_def sentPlayback_def)

lemma newWebSocket_frame [simp]:
  "isRemoteAction (newWebSocket c s) = isRemoteAction s"
  "lastSentSeek (newWebSocket c s) = lastSentSeek s"
  "roomInput (newWebSocket c s) = roomInput s"
  "isHost (newWebSocket c s) = isHost s"
  "syncInterval (newWebSocket c s) = syncInterval s"
  "timers (newWebSocket c s) = timers s"
  "nextTimer (newWebSocket c s) = nextTimer s"
  "sentPlayback (newWebSocket c s) = sentPlayback s"
  "trace (newWebSocket c s) = trace s @ (if 35 \<in> set c then [] else [WsNew (nextSocket s) c])"
  by (simp_all add: newWebSocket_def sentPlayback_def)

lemma connect_frame [simp]:
  "isRemoteAction (connect s) = isRemoteAction s"
  "lastSentSeek (connect s) = lastSentSeek s"
  "roomInput (connect s) = roomInput s"
  "isHost (connect s) = isHost s"
  "syncInterval (connect s) = syncInterval s"
  "timers (connect s) = timers s"
  "nextTimer (connect s) = nextTimer s"
  "sentPlayback (connect s) = sentPlayback s"
  by (simp_all add: connect_def sentPlayback_def split: option.splits)

lemma onerror_frame [simp]:
  "isRemoteAction (onerror s) = isRemoteAction s"
  "lastSentSeek (onerror s) = lastSentSeek s"
  "roomInput (onerror s) = roomInput s"
  "isHost (onerror s) = isHost s"
  "syncInterval (onerror s) = syncInterval s"
  "timers (onerror s) = timers s"
  "nextTimer (onerror s) = nextTimer s"
  "trace (onerror s) = trace s"
  "sentPlayback (onerror s) = sentPlayback s"
  by (simp_all add: onerror_def sentPlayback_def)

lemma send_frame [simp]:
  "isRemoteAction (send m s) = isRemoteAction s"
  "lastSentSeek (send m s) = lastSentSeek s"
  "roomInput (send m s) = roomInput s"
  "isHost (send m s) = isHost s"
  "syncInterval (send m s) = syncInterval s"
  "timers (send m s) = timers s"
  "nextTimer (send m s) = nextTimer s"
  "trace (send m s) = trace s @ [Send m]"
  by (simp_all add: send_def sentPlayback_def)

lemma setTimeout_frame [simp]:
  "isRemoteAction (setTimeout c ms s) = isRemoteAction s"
  "lastSentSeek (setTimeout c ms s) = lastSentSeek s"
  "roomInput (setTimeout c ms s) = roomInput s"
  "isHost (setTimeout c ms s) = isHost s"
  "syncInterval (setTimeout c ms s) = syncInterval s"
  "trace (setTimeout c ms s) = trace s"
  "sentPlayback (setTimeout c ms s) = sentPlayback s"
  by (simp_all add: setTimeout_def sentPlayback_def)

lemma setInterval_frame [simp]:
  "isRemoteAction (setInterval c ms s) = isRemoteAction s"
  "lastSentSeek (setInterval c ms s) = lastSentSeek s"
  "roomInput (setInterval c ms s) = roomInput s"
  "isHost (setInterval c ms s) = isHost s"
  "syncInterval (setInterval c ms s) = syncInterval s"
  "trace (setInterval c ms s) = trace s"
  "sentPlayback (setInterval c ms s) = sentPlayback s"
  by (simp_all add: setInterval_def sentPlayback_def)

lemma showToast_frame [simp]:
  "isRemoteAction (showToast m s) = isRemoteAction s"
  "lastSentSeek (showToast m s) = lastSentSeek s"
  "roomInput (showToast m s) = roomInput s"
  "isHost (showToast m s) = isHost s"
  "syncInterval (showToast m s) = syncInterval s"
  "trace (showToast m s) = trace s"
  "sentPlayback (showToast m s) = sentPlayback s"
  by (simp_all add: showToast_def sentPlayback_def)

lemma clearSoon_frame [simp]:
  "isRemoteAction (clearSoon s) = isRemoteAction s"
  "lastSentSeek (clearSoon s) = lastSentSeek s"
  "roomInput (clearSoon s) = roomInput s"
  "isHost (clearSoon s) = isHost s"
  "syncInterval (clearSoon s) = syncInterval s"
  "trace (clearSoon s) = trace s"
  "sentPlayback (clearSoon s) = sentPlayback s"
  by (simp_all add: clearSoon_def sentPlayback_def)

lemma copyLink_frame [simp]:
  "isRemoteAction (copyLink s) = isRemoteAction s"
  "lastSentSeek (copyLink s) = lastSentSeek s"
  "roomInput (copyLink s) = roomInput s"
  "isHost (copyLink s) = isHost s"
  "syncInterval (copyLink s) = syncInterval s"
  "trace (copyLink s) = trace s"
  "sentPlayback (copyLink s) = sentPlayback s"
  by (simp_all add: copyLink_def setTimeout_def sentPlayback_def)

lemma clearInterval_frame [simp]:
  "isRemoteAction (clearInterval h s) = isRemoteAction s"
  "lastSentSeek (clearInterval h s) = lastSentSeek s"
  "roomInput (clearInterval h s) = roomInput s"
  "isHost (clearInterval h s) = isHost s"
  "syncInterval (clearInterval h s) = syncInterval s"
  "nextTimer (clearInterval h s) = nextTimer s"
  "trace (clearInterval h s) = trace s"
  "sentPlayback (clearInterval h s) = sentPlayback s"
  by (simp_all add: clearInterval_def sentPlayback_def split: option.splits)

lemma startSyncIntervals_frame [simp]:
  "isRemoteAction (startSyncIntervals s) = isRemoteAction s"
  "lastSentSeek (startSyncIntervals s) = lastSentSeek s"
  "roomInput (startSyncIntervals s) = roomInput s"
  "isHost (startSyncIntervals s) = isHost s"
  "trace (startSyncIntervals s) = trace s"
  "sentPlayback (startSyncIntervals s) = sentPlayback s"
  by (simp_all add: startSyncIntervals_def Let_def sentPlayback_def)

lemma sentPlayback_send [simp]:
  "sentPlayback (send m s) = sentPlayback s @ (if isPlaybackSend (Send m) then [Send m] else [])"
  by (simp add: send_def sentPlayback_def)

lemma sentPlayback_update [simp]:
  "sentPlayback (s\<lparr>isRemoteAction := b\<rparr>) = sentPlayback s"
  "sentPlayback (s\<lparr>lastSentSeek := n\<rparr>) = sentPlayback s"
  "sentPlayback (s\<lparr>latency := l\<rparr>) = sentPlayback s"
  "sentPlayback (s\<lparr>queue := q\<rparr>) = sentPlayback s"
  "sentPlayback (s\<lparr>isHost := h\<rparr>) = sentPlayback s"
  "sentPlayback (s\<lparr>viewers := k\<rparr>) = sentPlayback s"
  "sentPlayback (s\<lparr>roomInput := r\<rparr>) = sentPlayback s"
  "sentPlayback (s\<lparr>nickInput := r\<rparr>) = sentPlayback s"
  "sentPlayback (s\<lparr>urlInput := r\<rparr>) = sentPlayback s"
  "sentPlayback (s\<lparr>chatInput := r\<rparr>) = sentPlayback s"
  "sentPlayback (s\<lparr>directVideo := dv\<rparr>) = sentPlayback s"
  "sentPlayback (s\<lparr>autoplayAllowed := b\<rparr>) = sentPlayback s"
  "sentPlayback (s\<lparr>ytReady := b\<rparr>) = sentPlayback s"
  "sentPlayback (s\<lparr>ytPlayer := yp\<rparr>) = sentPlayback s"
  "sentPlayback (s\<lparr>toastShown := b\<rparr>) = sentPlayback s"
  "sentPlayback (s\<lparr>timers := ts\<rparr>) = sentPlayback s"
  "sentPlayback (s\<lparr>pingInterval := hp\<rparr>) = sentPlayback s"
  "sentPlayback (s\<lparr>syncInterval := hs\<rparr>) = sentPlayback s"
  "sentPlayback (s\<lparr>addBtnDisabled := b\<rparr>) = sentPlayback s"
  "sentPlayback (s\<lparr>chatPanelActive := b\<rparr>) = sentPlayback s"
  by (simp_all add: sentPlayback_def)

lemma timers_setTimeout [simp]:
  "timers (setTimeout c ms s) =
     timers s @ [\<lparr>tid = nextTimer s, repeating = False, delay = ms, cb = c\<rparr>]"
  "nextTimer (setTimeout c ms s) = Suc (nextTimer s)"
  "timers (setInterval c ms s) =
     timers s @ [\<lparr>tid = nextTimer s, repeating = True, delay = ms, cb = c\<rparr>]"
  "nextTimer (setInterval c ms s) = Suc (nextTimer s)"
  "timers (showToast m s) =
     timers s @ [\<lparr>tid = nextTimer s, repeating = False, delay = 2000, cb = CbHideToast\<rparr>]"
  "nextTimer (showToast m s) = Suc (nextTimer s)"
  "timers (clearSoon s) =
     timers s @ [\<lparr>tid = nextTimer s, repeating = False, delay = 100, cb = CbClearRemote\<rparr>]"
  "nextTimer (clearSoon s) = Suc (nextTimer s)"
  "timers (copyLink s) =
     timers s @ [\<lparr>tid = nextTimer s, repeating = False, delay = 2000, cb = CbCopyLabel\<rparr>]"
  "nextTimer (copyLink s) = Suc (nextTimer s)"
  by (simp_all add: setTimeout_def setInterval_def showToast_def clearSoon_def copyLink_def)

subsection \<open>Inbound messages and the fields they leave alone\<close>

lemma flag_kept_by_message:
  "isRemoteAction s \<Longrightarrow> isRemoteAction (handleMessage now m s)"
  by (cases m) (simp_all add: Let_def split: option.splits)

lemma sentPlayback_message [simp]:
  "sentPlayback (handleMessage now m s) = sentPlayback s"
  by (cases m) (simp_all add: Let_def split: option.splits)

lemma lastSentSeek_message [simp]:
  "lastSentSeek (handleMessage now m s) = lastSentSeek s"
  by (cases m) (simp_all add: Let_def split: option.splits)

lemma roomInput_message [simp]:
  "roomInput (handleMessage now m s) = roomInput s"
  by (cases m) (simp_all add: Let_def split: option.splits)

subsection \<open>The cadence invariant\<close>

text \<open>
  \<open>cadenceOk\<close> holds in the initial state and is kept by every event, so it holds in every
  reachable state. \<open>startSyncIntervals\<close> establishes it from \<open>handlesOk\<close> alone, which is
  what is left of it after the role has been assigned.
\<close>

lemma startSync_fields [simp]:
  "timers (startSyncIntervals s) =
     filter (\<lambda>t. Some (tid t) \<noteq> syncInterval s) (timers s) @
     [\<lparr>tid = nextTimer s, repeating = True,
       delay = (if isHost s then HOST_REPORT_INTERVAL else SYNC_CHECK_INTERVAL),
       cb = (if isHost s then CbHostReport else CbSyncPoll)\<rparr>]"
  "nextTimer (startSyncIntervals s) = Suc (nextTimer s)"
  "syncInterval (startSyncIntervals s) = Some (nextTimer s)"
  by (auto simp: startSyncIntervals_def Let_def clearInterval_def setInterval_def
      split: option.splits intro: filter_cong)

lemma cadenceOk_handlesOk: "cadenceOk s \<Longrightarrow> handlesOk s"
  by (auto simp: cadenceOk_def handlesOk_def list_all_iff)

lemma handlesOk_cong:
  "timers s' = timers s \<Longrightarrow> nextTimer s' = nextTimer s \<Longrightarrow> syncInterval s' = syncInterval s
   \<Longrightarrow> handlesOk s' = handlesOk s"
  by (simp add: handlesOk_def freshHandles_def cadenceTimers_def)

lemma cadenceOk_cong:
  "timers s' = timers s \<Longrightarrow> nextTimer s' = nextTimer s \<Longrightarrow> syncInterval s' = syncInterval s
   \<Longrightarrow> isHost s' = isHost s \<Longrightarrow> cadenceOk s' = cadenceOk s"
  by (simp add: cadenceOk_def freshHandles_def cadenceTimers_def)

lemma startSync_ok: "handlesOk s \<Longrightarrow> cadenceOk (startSyncIntervals s)"
  by (auto simp: handlesOk_def cadenceOk_def freshHandles_def cadenceTimers_def list_all_iff
      isCadence_def cadenceFor_def distinct_map_filter)

lemma cadenceOk_append:
  assumes "cadenceOk s"
    and "timers s' = timers s @ [t]" and "tid t = nextTimer s" and "\<not> isCadence t"
    and "nextTimer s' = Suc (nextTimer s)" and "syncInterval s' = syncInterval s"
    and "isHost s' = isHost s"
  shows "cadenceOk s'"
  using assms
  by (auto simp: cadenceOk_def freshHandles_def cadenceTimers_def list_all_iff)

lemma cadenceOk_filter:
  assumes "cadenceOk s"
    and "timers s' = filter P (timers s)"
    and "nextTimer s' = nextTimer s" and "syncInterval s' = syncInterval s"
    and "isHost s' = isHost s"
  shows "cadenceOk s'"
  using assms
  by (auto simp: cadenceOk_def freshHandles_def cadenceTimers_def list_all_iff distinct_map_filter)

lemma cadenceOk_showToast: "cadenceOk s \<Longrightarrow> cadenceOk (showToast m s)"
  by (rule cadenceOk_append[where s = s
        and t = "\<lparr>tid = nextTimer s, repeating = False, delay = 2000, cb = CbHideToast\<rparr>"])
     (simp_all add: isCadence_def)

lemma cadenceOk_clearSoon: "cadenceOk s \<Longrightarrow> cadenceOk (clearSoon s)"
  by (rule cadenceOk_append[where s = s
        and t = "\<lparr>tid = nextTimer s, repeating = False, delay = 100, cb = CbClearRemote\<rparr>"])
     (simp_all add: isCadence_def)

lemma cadenceOk_frames [simp]:
  "cadenceOk (seekTo p s) = cadenceOk s"
  "cadenceOk (playMedia s) = cadenceOk s"
  "cadenceOk (pauseMedia s) = cadenceOk s"
  "cadenceOk (loadMedia m s) = cadenceOk s"
  "cadenceOk (clearPlayer s) = cadenceOk s"
  "cadenceOk (updateHostIndicator s) = cadenceOk s"
  "cadenceOk (addChatMessage n x b s) = cadenceOk s"
  "cadenceOk (connect s) = cadenceOk s"
  "cadenceOk (onerror s) = cadenceOk s"
  "cadenceOk (send om s) = cadenceOk s"
  "cadenceOk (markSocket i r s) = cadenceOk s"
  "cadenceOk (s\<lparr>isRemoteAction := b\<rparr>) = cadenceOk s"
  "cadenceOk (s\<lparr>queue := q\<rparr>) = cadenceOk s"
  "cadenceOk (s\<lparr>latency := l\<rparr>) = cadenceOk s"
  "cadenceOk (s\<lparr>viewers := k\<rparr>) = cadenceOk s"
  by (rule cadenceOk_cong; simp)+

lemma handlesOk_frames [simp]:
  "handlesOk (updateHostIndicator s) = handlesOk s"
  "handlesOk (s\<lparr>isHost := h\<rparr>) = handlesOk s"
  "handlesOk (s\<lparr>queue := q\<rparr>) = handlesOk s"
  "handlesOk (s\<lparr>viewers := k\<rparr>) = handlesOk s"
  by (rule handlesOk_cong; simp)+

lemma cadenceOk_message: "cadenceOk s \<Longrightarrow> cadenceOk (handleMessage now m s)"
proof (cases m)
  case (State n q h cur pos playing)
  assume "cadenceOk s"
  then have "cadenceOk (startSyncIntervals (updateHostIndicator (s\<lparr>viewers := n, queue := q, isHost := h\<rparr>)))"
    by (intro startSync_ok) (simp add: cadenceOk_handlesOk)
  then show ?thesis using State by (simp add: Let_def split: option.splits)
next
  case (HostUpdate h)
  assume ok: "cadenceOk s"
  show ?thesis
  proof (cases "h = isHost s")
    case True
    have "cadenceOk (updateHostIndicator (s\<lparr>isHost := h\<rparr>)) = cadenceOk s"
      using True by (intro cadenceOk_cong) simp_all
    then show ?thesis using HostUpdate True ok by (simp add: Let_def)
  next
    case False
    have "cadenceOk (startSyncIntervals (updateHostIndicator (s\<lparr>isHost := h\<rparr>)))"
      using ok by (intro startSync_ok) (simp add: cadenceOk_handlesOk)
    then show ?thesis using HostUpdate False
      by (auto simp: Let_def intro: cadenceOk_showToast)
  qed
qed (auto simp: Let_def intro!: cadenceOk_showToast cadenceOk_clearSoon split: option.splits)

lemma cadenceOk_copyLink: "cadenceOk s \<Longrightarrow> cadenceOk (copyLink s)"
  by (rule cadenceOk_append[where s = s
        and t = "\<lparr>tid = nextTimer s, repeating = False, delay = 2000, cb = CbCopyLabel\<rparr>"])
     (simp_all add: isCadence_def)

lemma cadenceOk_onopen: "cadenceOk s \<Longrightarrow> cadenceOk (onopen now s)"
  by (rule cadenceOk_append[where s = s
        and t = "\<lparr>tid = nextTimer s, repeating = True, delay = 5000, cb = CbPing\<rparr>"])
     (simp_all add: onopen_def Let_def isCadence_def)

lemma cadenceOk_onclose: "cadenceOk s \<Longrightarrow> cadenceOk (onclose s)"
  by (auto simp: onclose_def cadenceOk_def freshHandles_def cadenceTimers_def list_all_iff
      clearInterval_def distinct_map_filter split: option.splits)

lemma cadenceOk_callback: "cadenceOk s \<Longrightarrow> cadenceOk (runCallback now c s)"
  by (cases c) (simp_all, (rule cadenceOk_cong[THEN iffD2]; simp)+)

lemma cadenceOk_fireTimer: "cadenceOk s \<Longrightarrow> cadenceOk (fireTimer now i s)"
proof -
  assume ok: "cadenceOk s"
  have "cadenceOk (s\<lparr>timers := filter (\<lambda>t. tid t \<noteq> i) (timers s)\<rparr>)"
    by (rule cadenceOk_filter[OF ok]) simp_all
  with ok show ?thesis
    by (simp add: fireTimer_def cadenceOk_callback split: option.splits)
qed

lemma cadenceOk_step: "cadenceOk s \<Longrightarrow> cadenceOk (step e s)"
proof (cases e)
  case (SocketMessage now m)
  assume "cadenceOk s"
  then show ?thesis using SocketMessage by (simp add: cadenceOk_message)
next
  case (SocketOpen now)
  assume "cadenceOk s"
  then show ?thesis using SocketOpen by (simp add: cadenceOk_onopen split: option.splits)
next
  case (SocketClose i)
  assume "cadenceOk s"
  then show ?thesis using SocketClose by (simp add: cadenceOk_onclose)
next
  case (SocketError i)
  assume "cadenceOk s"
  then show ?thesis using SocketError by (simp add: cadenceOk_onclose)
next
  case (TimerFires now i)
  assume "cadenceOk s"
  then show ?thesis using TimerFires by (simp add: cadenceOk_fireTimer)
next
  case ClickCopy
  assume "cadenceOk s"
  then show ?thesis using ClickCopy by (simp add: cadenceOk_copyLink)
qed (simp_all, (rule cadenceOk_cong[THEN iffD2];
      simp add: onRoomInput_def addToQueue_def sendChat_def skip_def withVideo_def
        onVideoPlay_def onVideoPause_def onVideoSeeked_def onVideoEnded_def onYTStateChange_def
        split: option.splits)+)

lemma cadenceOk_init: "cadenceOk (init roomParam rnd page)"
  by (simp add: init_def cadenceOk_def freshHandles_def cadenceTimers_def isCadence_def)

lemma reachable_cadenceOk: "reachable s \<Longrightarrow> cadenceOk s"
  by (induction rule: reachable.induct) (simp_all add: cadenceOk_init cadenceOk_step)

lemma reachable_run: "reachable s \<Longrightarrow> reachable (run es s)"
  unfolding run_def by (induction es arbitrary: s) (auto intro: reachable.after)

subsection \<open>Suppression over runs of events\<close>

text \<open>Only the timeout callback clears \<open>isRemoteAction\<close>.\<close>

lemma flag_kept_by_step:
  "isRemoteAction s \<Longrightarrow> \<not> isTimerEvent e \<Longrightarrow> isRemoteAction (step e s)"
  by (cases e)
     (simp_all add: flag_kept_by_message onRoomInput_def addToQueue_def sendChat_def skip_def
        withVideo_def onVideoPlay_def onVideoPause_def onVideoSeeked_def onVideoEnded_def
        onYTStateChange_def onopen_def onclose_def Let_def split: option.splits)

lemma sentPlayback_step:
  "isRemoteAction s \<Longrightarrow> \<not> isTimerEvent e \<Longrightarrow> sentPlayback (step e s) = sentPlayback s"
  by (cases e)
     (simp_all add: onRoomInput_def addToQueue_def sendChat_def skip_def
        withVideo_def onVideoPlay_def onVideoPause_def onVideoSeeked_def onVideoEnded_def
        onYTStateChange_def onopen_def onclose_def Let_def split: option.splits)

lemma suppressed_run:
  "isRemoteAction s \<Longrightarrow> \<not> list_ex isTimerEvent es \<Longrightarrow>
   isRemoteAction (run es s) \<and> sentPlayback (run es s) = sentPlayback s"
proof (induction es arbitrary: s)
  case Nil
  then show ?case by (simp add: run_def)
next
  case (Cons e es)
  from Cons.prems have e: "\<not> isTimerEvent e" and es: "\<not> list_ex isTimerEvent es" by simp_all
  have flag: "isRemoteAction (step e s)" using Cons.prems(1) e by (rule flag_kept_by_step)
  have "run (e # es) s = run es (step e s)" by (simp add: run_def)
  with Cons.IH[OF flag es] sentPlayback_step[OF Cons.prems(1) e]
  show ?case by simp
qed

subsection \<open>Trimming the transcript\<close>

lemma removeOld_count: "length (children (removeOld ns)) = min 100 (length (children ns))"
proof (induction ns rule: removeOld.induct)
  case (1 ns)
  show ?case
  proof (cases "length (children ns) > 100")
    case True
    then obtain n rest where ns: "ns = n # rest" by (cases ns) (auto simp: children_def)
    have "length (children rest) \<ge> 100" using True ns by (auto simp: children_def split: if_splits)
    moreover have "removeOld ns = removeOld rest" using True ns by (subst removeOld.simps) simp
    moreover have "length (children (removeOld rest)) = min 100 (length (children rest))"
      using "1.IH"[OF True] ns by simp
    ultimately show ?thesis using True by simp
  next
    case False
    then show ?thesis by (subst removeOld.simps) simp
  qed
qed

lemma removeOld_drop: "\<exists>k. removeOld ns = drop k ns"
proof (induction ns rule: removeOld.induct)
  case (1 ns)
  show ?case
  proof (cases "length (children ns) > 100")
    case True
    then obtain k where "removeOld (tl ns) = drop k (tl ns)" using "1.IH" by blast
    then have "removeOld ns = drop (Suc k) ns"
      using True by (subst removeOld.simps) (simp add: drop_Suc)
    then show ?thesis by blast
  next
    case False
    then have "removeOld ns = drop 0 ns" by (subst removeOld.simps) simp
    then show ?thesis by blast
  qed
qed

lemma removeOld_last:
  "ns \<noteq> [] \<Longrightarrow> removeOld ns \<noteq> [] \<and> last (removeOld ns) = last ns"
proof (induction ns rule: removeOld.induct)
  case (1 ns)
  show ?case
  proof (cases "length (children ns) > 100")
    case True
    then obtain n rest where ns: "ns = n # rest" by (cases ns) (auto simp: children_def)
    have "rest \<noteq> []" using True ns by (auto simp: children_def split: if_splits)
    then have "removeOld rest \<noteq> [] \<and> last (removeOld rest) = last rest"
      using "1.IH"[OF True] ns by simp
    moreover have "removeOld ns = removeOld rest" using True ns by (subst removeOld.simps) simp
    ultimately show ?thesis using ns \<open>rest \<noteq> []\<close> by simp
  next
    case False
    then show ?thesis using "1.prems" by (subst removeOld.simps, subst removeOld.simps) simp
  qed
qed

subsection \<open>The time of the last forwarded seek\<close>

text \<open>Only the seeked listener writes \<open>lastSentSeek\<close>.\<close>

lemma lastSentSeek_step:
  "\<not> isSeekedEvent e \<Longrightarrow> lastSentSeek (step e s) = lastSentSeek s"
proof (cases e)
  case (TimerFires now i)
  have "lastSentSeek (runCallback now c s') = lastSentSeek s'" for c s'
    by (cases c) simp_all
  then show ?thesis using TimerFires by (simp add: fireTimer_def split: option.splits)
qed (simp_all add: onRoomInput_def addToQueue_def sendChat_def skip_def
        withVideo_def onVideoPlay_def onVideoPause_def onVideoEnded_def
        onYTStateChange_def onopen_def onclose_def Let_def split: option.splits)

lemma lastSentSeek_run:
  "\<not> list_ex isSeekedEvent es \<Longrightarrow> lastSentSeek (run es s) = lastSentSeek s"
  unfolding run_def by (induction es arbitrary: s) (simp_all add: lastSentSeek_step)

subsection \<open>The session after the viewer has become host\<close>

lemma hosting_eq:
  "hosting =
     watching\<lparr>syncInterval := Some 4, isHost := True,
              statusText := js ''Connected (Host)'', toastText := js ''You are now the host'',
              toastShown := True,
              timers := [\<lparr>tid = 2, repeating = True, delay = 5000, cb = CbPing\<rparr>,
                         \<lparr>tid = 4, repeating = True, delay = 5000, cb = CbHostReport\<rparr>,
                         \<lparr>tid = 5, repeating = False, delay = 2000, cb = CbHideToast\<rparr>],
              nextTimer := 6\<rparr>"
  by (simp add: hosting_def run_def watching_eq joined_eq socketOpen_def updateHostIndicator_def
      setStatus_def HOST_REPORT_INTERVAL_def showToast_def setTimeout_def js_def Let_def
      startSyncIntervals_def clearInterval_def setInterval_def)

lemma reachable_sessions:
  "reachable joined" "reachable watching" "reachable hosting" "reachable rejoined"
  by (simp_all add: joined_def watching_def hosting_def rejoined_def reachable_run
      reachable.start)

lemma rejoined_eq:
  "rejoined =
     hosting\<lparr>socket := Some \<lparr>wsId = 2, readyState = OPEN\<rparr>, pingInterval := Some 6,
             statusText := js ''Connected'',
             timers := [\<lparr>tid = 2, repeating = True, delay = 5000, cb = CbPing\<rparr>,
                        \<lparr>tid = 4, repeating = True, delay = 5000, cb = CbHostReport\<rparr>,
                        \<lparr>tid = 5, repeating = False, delay = 2000, cb = CbHideToast\<rparr>,
                        \<lparr>tid = 6, repeating = True, delay = 5000, cb = CbPing\<rparr>],
             nextTimer := 7, nextSocket := 3,
             trace := [WsNew 1 (js ''000000''), Send (Join (js ''Guest'')), Send (Ping 1000),
                       Adapter Play False, WsClose 1, WsNew 2 (js ''000000''),
                       Send (Join (js ''Guest'')), Send (Ping 2000)]\<rparr>"
  by (simp add: rejoined_def run_def hosting_eq watching_eq joined_eq connect_def trim_def
      isWhiteSpace_def js_def wsClose_def newWebSocket_def setStatus_def onopen_def
      markSocket_def send_def getNick_def setInterval_def Let_def)

subsection \<open>Closing\<close>

lemma cadence_all_sync:
  "handlesOk s \<Longrightarrow> filter (\<lambda>t. Some (tid t) \<noteq> syncInterval s) (cadenceTimers s) = []"
  by (auto simp: handlesOk_def list_all_iff filter_empty_conv)

lemma timers_onclose:
  "timers (onclose s) =
     filter (\<lambda>t. Some (tid t) \<noteq> pingInterval s \<and> Some (tid t) \<noteq> syncInterval s) (timers s)"
  by (auto simp: onclose_def clearInterval_def setStatus_def split: option.splits
      intro: filter_cong)

lemma close_clears_cadence: "handlesOk s \<Longrightarrow> cadenceTimers (onclose s) = []"
proof -
  assume "handlesOk s"
  then have "filter (\<lambda>t. Some (tid t) \<noteq> syncInterval s) (cadenceTimers s) = []"
    by (rule cadence_all_sync)
  then show "cadenceTimers (onclose s) = []"
    unfolding cadenceTimers_def timers_onclose by (auto simp: filter_empty_conv)
qed

subsection \<open>The room-code field\<close>

lemma dropWhile_none: "\<forall>x\<in>set xs. \<not> P x \<Longrightarrow> dropWhile P xs = xs"
  by (cases xs) auto

lemma codeChar_not_space: "isCodeChar c \<Longrightarrow> \<not> isWhiteSpace c"
  by (auto simp: isCodeChar_def isWhiteSpace_def)

lemma trim_code: "list_all isCodeChar xs \<Longrightarrow> trim xs = xs"
  by (simp add: trim_def dropWhile_none codeChar_not_space list_all_iff)

lemma chars_code: "k < 36 \<Longrightarrow> isCodeChar (chars ! k)"
proof -
  have "list_all isCodeChar chars" by (simp add: chars_def js_def isCodeChar_def)
  moreover have "length chars = 36" by (simp add: chars_def js_def)
  ultimately show "k < 36 \<Longrightarrow> isCodeChar (chars ! k)" by (simp add: list_all_length)
qed

lemma generateCode_valid: "validCode (generateCode rnd)"
  by (simp add: validCode_def generateCode_def list_all_iff chars_code)

lemma upperAscii_code: "isCodeCharCI c \<Longrightarrow> isCodeChar (upperAscii c)"
  by (auto simp: isCodeCharCI_def isCodeChar_def upperAscii_def)

lemma initialCode_valid: "validCode (initialCode roomParam rnd)"
  using generateCode_valid[of rnd]
  by (auto simp: initialCode_def validCode_def list_all_iff upperAscii_code split: option.splits)

lemma validCode_codeField: "validCode (roomInput s) \<Longrightarrow> codeField s"
  by (simp add: validCode_def codeField_def)

lemma roomInput_callback [simp]: "roomInput (runCallback now c s) = roomInput s"
  by (cases c) simp_all

lemma codeField_step: "codeField s \<Longrightarrow> codeField (step e s)"
proof (cases e)
  case (ClickNewRoom rnd)
  then show ?thesis using generateCode_valid[of rnd] by (simp add: codeField_def validCode_def)
next
  case (RoomInput upper)
  then show ?thesis by (auto simp: codeField_def onRoomInput_def list_all_iff dest: in_set_takeD)
next
  case (TimerFires now i)
  assume "codeField s"
  then show ?thesis using TimerFires by (simp add: codeField_def fireTimer_def split: option.splits)
qed (simp_all add: codeField_def addToQueue_def sendChat_def skip_def
        withVideo_def onVideoPlay_def onVideoPause_def onVideoSeeked_def onVideoEnded_def
        onYTStateChange_def onopen_def onclose_def Let_def split: option.splits)

lemma reachable_codeField: "reachable s \<Longrightarrow> codeField s"
proof (induction rule: reachable.induct)
  case (start roomParam rnd page)
  show ?case using initialCode_valid[of roomParam rnd]
    by (simp add: init_def codeField_def validCode_def)
next
  case (after s e)
  then show ?case by (simp add: codeField_step)
qed

lemma shortCode_eq: "roomInput (step (RoomInput (js ''AB'')) joined) = js ''AB''"
  by (simp add: onRoomInput_def js_def isCodeChar_def)

subsection \<open>The cadence timer after a role change\<close>

lemma cadence_after_startSync:
  assumes "handlesOk s"
  shows "cadenceTimers (startSyncIntervals s) =
     [\<lparr>tid = nextTimer s, repeating = True,
       delay = (if isHost s then HOST_REPORT_INTERVAL else SYNC_CHECK_INTERVAL),
       cb = (if isHost s then CbHostReport else CbSyncPoll)\<rparr>]"
proof -
  have "filter isCadence (filter (\<lambda>t. Some (tid t) \<noteq> syncInterval s) (timers s)) = []"
    using assms by (auto simp: handlesOk_def cadenceTimers_def list_all_iff filter_empty_conv)
  then show ?thesis by (simp add: cadenceTimers_def isCadence_def)
qed

lemma cadenceTimers_frames [simp]:
  "cadenceTimers (seekTo p s) = cadenceTimers s"
  "cadenceTimers (playMedia s) = cadenceTimers s"
  "cadenceTimers (loadMedia m s) = cadenceTimers s"
  "cadenceTimers (showToast x s) = cadenceTimers s"
  by (simp_all add: cadenceTimers_def isCadence_def)

lemma at_most_one:
  assumes "distinct (map f xs)" and "\<forall>x\<in>set xs. \<forall>y\<in>set xs. f x = f y"
  shows "length xs \<le> 1"
proof (cases xs)
  case Nil
  then show ?thesis by simp
next
  case outer: (Cons a r)
  show ?thesis
  proof (cases r)
    case Nil
    then show ?thesis using outer by simp
  next
    case (Cons b r')
    have "a \<in> set xs" and "b \<in> set xs" using outer Cons by simp_all
    then have "f a = f b" by (rule assms(2)[rule_format])
    moreover have "f a \<noteq> f b" using assms(1) unfolding outer Cons by simp
    ultimately show ?thesis by simp
  qed
qed

lemma one_cadence: "cadenceOk s \<Longrightarrow> length (cadenceTimers s) \<le> 1"
proof -
  assume ok: "cadenceOk s"
  have d: "distinct (map tid (cadenceTimers s))"
    using ok by (simp add: cadenceOk_def cadenceTimers_def distinct_map_filter)
  have same: "\<forall>t\<in>set (cadenceTimers s). syncInterval s = Some (tid t)"
    using ok by (simp add: cadenceOk_def list_all_iff)
  have eq: "tid x = tid y"
    if "x \<in> set (cadenceTimers s)" and "y \<in> set (cadenceTimers s)" for x y
  proof -
    have "syncInterval s = Some (tid x)" and "syncInterval s = Some (tid y)"
      using same that by blast+
    then show ?thesis by simp
  qed
  show ?thesis
  proof (rule at_most_one[OF d], intro ballI)
    fix x y
    assume "x \<in> set (cadenceTimers s)" and "y \<in> set (cadenceTimers s)"
    then show "tid x = tid y" by (rule eq)
  qed
qed

lemma role_cadence:
  assumes ok: "cadenceOk s"
  shows "list_all (cadenceFor (isHost s)) (cadenceTimers s)"
    and "\<not> isHost s \<longrightarrow> list_all (\<lambda>t. cb t \<noteq> CbHostReport) (timers s)"
    and "isHost s \<longrightarrow> list_all (\<lambda>t. cb t \<noteq> CbSyncPoll) (timers s)"
proof -
  show role: "list_all (cadenceFor (isHost s)) (cadenceTimers s)"
    using ok by (simp add: cadenceOk_def list_all_iff)
  have mem: "cadenceFor (isHost s) t" if "t \<in> set (timers s)" "isCadence t" for t
    using role that by (simp add: list_all_iff cadenceTimers_def)
  show "\<not> isHost s \<longrightarrow> list_all (\<lambda>t. cb t \<noteq> CbHostReport) (timers s)"
    unfolding list_all_iff
  proof (intro impI ballI notI)
    fix t assume "\<not> isHost s" "t \<in> set (timers s)" "cb t = CbHostReport"
    then show False using mem[of t] by (simp add: isCadence_def cadenceFor_def)
  qed
  show "isHost s \<longrightarrow> list_all (\<lambda>t. cb t \<noteq> CbSyncPoll) (timers s)"
    unfolding list_all_iff
  proof (intro impI ballI notI)
    fix t assume "isHost s" "t \<in> set (timers s)" "cb t = CbSyncPoll"
    then show False using mem[of t] by (simp add: isCadence_def cadenceFor_def)
  qed
qed

lemma session_cadence:
  "cadenceTimers watching = [\<lparr>tid = 3, repeating = True, delay = 10000, cb = CbSyncPoll\<rparr>]"
  "cadenceTimers hosting = [\<lparr>tid = 4, repeating = True, delay = 5000, cb = CbHostReport\<rparr>]"
  "isHost hosting" "nextTimer hosting = 6" "syncInterval hosting = Some 4"
  by (simp_all add: hosting_eq watching_eq joined_eq cadenceTimers_def isCadence_def)

section \<open>Inbound playback instructions\<close>

text \<open>
  C1. An inbound \<open>seek\<close> whose position is within 3.0 seconds of the local one changes
  nothing at all. Beyond 3.0 seconds the handler makes exactly one adapter call, a seek to
  the asserted position, made with \<open>isRemoteAction\<close> already set; the flag is still set when
  the handler returns, and the handler has scheduled one timeout of 100 ms (next to the
  toast's own of 2000 ms) whose firing clears the flag. That the timer found under the new
  handle is the new one needs the handles in use to be ones already given out, which
  \<open>reachable_cadenceOk\<close> shows for every reachable state.
\<close>

theorem remote_seek_tolerance:
  "(\<bar>getPosition s - pos\<bar> \<le> 3 \<longrightarrow> handleMessage now (MsgSeek pos) s = s) \<and>
   (\<bar>getPosition s - pos\<bar> > 3 \<longrightarrow>
      trace (handleMessage now (MsgSeek pos) s) = trace s @ [Adapter (SeekTo pos) True] \<and>
      isRemoteAction (handleMessage now (MsgSeek pos) s) \<and>
      timers (handleMessage now (MsgSeek pos) s) =
        timers s @ [\<lparr>tid = nextTimer s, repeating = False, delay = 2000, cb = CbHideToast\<rparr>,
                    \<lparr>tid = Suc (nextTimer s), repeating = False, delay = 100, cb = CbClearRemote\<rparr>] \<and>
      (freshHandles s \<longrightarrow>
         \<not> isRemoteAction (fireTimer later (Suc (nextTimer s)) (handleMessage now (MsgSeek pos) s))))"
  using find_fresh[of s 1]
  by (simp add: SYNC_TOLERANCE_def fireTimer_def find_append_None)

theorem remote_seek_tolerance_witness:
  "\<bar>getPosition watching - 11\<bar> \<le> 3 \<and> handleMessage 0 (MsgSeek 11) watching = watching \<and>
   3 < \<bar>getPosition watching - 15\<bar> \<and>
   trace (handleMessage 0 (MsgSeek 15) watching) = trace watching @ [Adapter (SeekTo 15) True] \<and>
   freshHandles watching \<and>
   \<not> isRemoteAction (fireTimer 0 5 (handleMessage 0 (MsgSeek 15) watching))"
  using remote_seek_tolerance[where s = watching and pos = 11 and now = 0 and later = 0]
        remote_seek_tolerance[where s = watching and pos = 15 and now = 0 and later = 0]
  by (simp add: watching_facts)

text \<open>
  C2. An inbound \<open>play\<close> sets the flag, seeks to the asserted position plus the latency
  estimate in seconds (the estimate is kept in milliseconds), then plays, and schedules the
  100 ms timeout that clears the flag. After a pong that took 400 ms to come back the
  estimate is 0.2 s, and \<open>play\<close> at 5.0 gives seek(5.2) followed by play().
\<close>

theorem remote_play_compensated:
  "trace (handleMessage now (MsgPlay pos nick) s) =
     trace s @ [Adapter (SeekTo (pos + latency s / 1000)) True, Adapter Play True] \<and>
   isRemoteAction (handleMessage now (MsgPlay pos nick) s) \<and>
   timers (handleMessage now (MsgPlay pos nick) s) =
     timers s @ [\<lparr>tid = nextTimer s, repeating = False, delay = 2000, cb = CbHideToast\<rparr>,
                 \<lparr>tid = Suc (nextTimer s), repeating = False, delay = 100, cb = CbClearRemote\<rparr>] \<and>
   (freshHandles s \<longrightarrow>
      \<not> isRemoteAction (fireTimer later (Suc (nextTimer s)) (handleMessage now (MsgPlay pos nick) s))) \<and>
   latency (handleMessage (t + 400) (Pong t) s) / 1000 = 0.2 \<and>
   trace (handleMessage now (MsgPlay 5.0 nick) (handleMessage (t + 400) (Pong t) s)) =
     trace s @ [Adapter (SeekTo 5.2) True, Adapter Play True]"
  using find_fresh[of s 1]
  by (simp add: fireTimer_def find_append_None)

theorem remote_play_compensated_witness:
  "freshHandles watching \<and>
   \<not> isRemoteAction (fireTimer 0 5 (handleMessage 0 (MsgPlay 5 None) watching)) \<and>
   trace (handleMessage 0 (MsgPlay 5 None) watching) =
     trace watching @ [Adapter (SeekTo 5.2) True, Adapter Play True]"
  using remote_play_compensated[where s = watching and pos = 5 and nick = None and now = 0
          and later = 0]
  by (simp add: watching_facts)

text \<open>
  C9. An inbound \<open>pause\<close> sets the flag, pauses, then seeks to the asserted position as it
  is, and schedules the 100 ms timeout that clears the flag.
\<close>

theorem remote_pause_uncompensated:
  "trace (handleMessage now (MsgPause pos nick) s) =
     trace s @ [Adapter Pause True, Adapter (SeekTo pos) True] \<and>
   isRemoteAction (handleMessage now (MsgPause pos nick) s) \<and>
   timers (handleMessage now (MsgPause pos nick) s) =
     timers s @ [\<lparr>tid = nextTimer s, repeating = False, delay = 2000, cb = CbHideToast\<rparr>,
                 \<lparr>tid = Suc (nextTimer s), repeating = False, delay = 100, cb = CbClearRemote\<rparr>] \<and>
   (freshHandles s \<longrightarrow>
      \<not> isRemoteAction (fireTimer later (Suc (nextTimer s)) (handleMessage now (MsgPause pos nick) s)))"
  using find_fresh[of s 1]
  by (simp add: fireTimer_def find_append_None)

theorem remote_pause_uncompensated_witness:
  "freshHandles watching \<and>
   \<not> isRemoteAction (fireTimer 0 5 (handleMessage 0 (MsgPause 7 None) watching)) \<and>
   trace (handleMessage 0 (MsgPause 7 None) watching) =
     trace watching @ [Adapter Pause True, Adapter (SeekTo 7) True]"
  using remote_pause_uncompensated[where s = watching and pos = 7 and nick = None and now = 0
          and later = 0]
  by (simp add: watching_facts)

text \<open>
  C4. A \<open>sync_response\<close> that reaches a non-host with a current item: a seek to the asserted
  position if the drift exceeds 3.0 s, and after it a play if the host plays and the local
  backend is paused, or a pause if the host does not play and the local backend is not
  paused. Every call is made with the flag set, and each part schedules its own 100 ms
  timeout that clears it. At local position 10.0, playing, the response (15.0, not playing)
  gives a seek to 15.0 and a pause.
\<close>

theorem sync_response_actions:
  assumes "\<not> isHost s" and "currentMedia s \<noteq> None"
  shows "trace (handleMessage now (SyncResponse pos playing) s) =
           trace s
           @ (if \<bar>getPosition s - pos\<bar> > 3 then [Adapter (SeekTo pos) True] else [])
           @ (if playing \<and> isPaused s then [Adapter Play True]
              else if \<not> playing \<and> \<not> isPaused s then [Adapter Pause True] else []) \<and>
         (isRemoteAction (handleMessage now (SyncResponse pos playing) s) \<longleftrightarrow>
           isRemoteAction s \<or> \<bar>getPosition s - pos\<bar> > 3 \<or> playing = isPaused s) \<and>
         timers (handleMessage now (SyncResponse pos playing) s) =
           timers s
           @ (if \<bar>getPosition s - pos\<bar> > 3
              then [\<lparr>tid = nextTimer s, repeating = False, delay = 2000, cb = CbHideToast\<rparr>,
                    \<lparr>tid = Suc (nextTimer s), repeating = False, delay = 100, cb = CbClearRemote\<rparr>]
              else [])
           @ (if playing = isPaused s
              then [\<lparr>tid = (if \<bar>getPosition s - pos\<bar> > 3 then Suc (Suc (nextTimer s)) else nextTimer s),
                     repeating = False, delay = 100, cb = CbClearRemote\<rparr>]
              else []) \<and>
         (getPosition s = 10 \<and> \<not> isPaused s \<longrightarrow>
           trace (handleMessage now (SyncResponse 15 False) s) =
             trace s @ [Adapter (SeekTo 15) True, Adapter Pause True])"
  using assms
  by (auto simp: Let_def isPaused_frame SYNC_TOLERANCE_def)

theorem sync_response_actions_witness:
  "\<not> isHost watching \<and> currentMedia watching \<noteq> None \<and>
   getPosition watching = 10 \<and> \<not> isPaused watching \<and>
   trace (handleMessage 0 (SyncResponse 15 False) watching) =
     trace watching @ [Adapter (SeekTo 15) True, Adapter Pause True] \<and>
   isRemoteAction (handleMessage 0 (SyncResponse 15 False) watching)"
  using sync_response_actions[where s = watching and pos = 15 and playing = False and now = 0]
  by (simp add: watching_facts)

section \<open>Echo suppression\<close>

text \<open>
  C3. While \<open>isRemoteAction\<close> is set, the play, pause and seeked listeners of the video
  element and the state-change listener of the YouTube player do nothing. After an inbound
  \<open>play\<close> the flag is set, so the backend's own play notification sends nothing; and over
  any run of events in which no timer fires, no play, pause or seek frame is sent.
\<close>

theorem suppression_blocks_echo:
  "(isRemoteAction s \<longrightarrow>
      onVideoPlay v s = s \<and> onVideoPause v s = s \<and> onVideoSeeked now v s = s \<and>
      onYTStateChange d s = s) \<and>
   step VideoPlayEvent (handleMessage now (MsgPlay pos nick) s) = handleMessage now (MsgPlay pos nick) s \<and>
   step (YTStateChange 1) (handleMessage now (MsgPlay pos nick) s) = handleMessage now (MsgPlay pos nick) s \<and>
   (\<not> list_ex isTimerEvent es \<longrightarrow>
      sentPlayback (run es (handleMessage now (MsgPlay pos nick) s)) = sentPlayback s)"
proof -
  let ?s' = "handleMessage now (MsgPlay pos nick) s"
  have flag: "isRemoteAction ?s'" by simp
  have a: "isRemoteAction s \<longrightarrow>
      onVideoPlay v s = s \<and> onVideoPause v s = s \<and> onVideoSeeked now v s = s \<and>
      onYTStateChange d s = s"
    by (simp add: onVideoPlay_def onVideoPause_def onVideoSeeked_def onYTStateChange_def)
  have b: "step VideoPlayEvent ?s' = ?s'"
    using flag by (simp add: withVideo_def onVideoPlay_def split: option.splits)
  have c: "step (YTStateChange 1) ?s' = ?s'"
    using flag by (simp add: onYTStateChange_def)
  have d: "\<not> list_ex isTimerEvent es \<longrightarrow> sentPlayback (run es ?s') = sentPlayback s"
    using suppressed_run[OF flag, of es] sentPlayback_message[of now "MsgPlay pos nick" s]
    by simp
  show ?thesis by (intro conjI a b c d)
qed

theorem suppression_blocks_echo_witness:
  "isRemoteAction (handleMessage 0 (MsgPlay 5 None) watching) \<and>
   onVideoPlay \<lparr>currentTime = 5.2, paused = False\<rparr> (handleMessage 0 (MsgPlay 5 None) watching) =
     handleMessage 0 (MsgPlay 5 None) watching \<and>
   \<not> list_ex isTimerEvent [VideoPlayEvent, VideoSeekedEvent 1700, ClickSkip] \<and>
   sentPlayback (run [VideoPlayEvent, VideoSeekedEvent 1700, ClickSkip]
                   (handleMessage 0 (MsgPlay 5 None) watching)) = sentPlayback watching"
  using suppression_blocks_echo[where s = "handleMessage 0 (MsgPlay 5 None) watching"
          and v = "\<lparr>currentTime = 5.2, paused = False\<rparr>"]
        suppression_blocks_echo[where s = watching and now = 0 and pos = 5 and nick = None
          and es = "[VideoPlayEvent, VideoSeekedEvent 1700, ClickSkip]"]
  by simp

section \<open>Local seeks\<close>

text \<open>
  C8, as the code has it. The seeked listener forwards a seek exactly when the flag is
  clear, the socket is open and more than 300 ms have passed since \<open>lastSentSeek\<close>, the
  time of the previous forwarded seek; it then records the time. Otherwise it does
  nothing. After a forwarded seek, a seek at most 300 ms later is not forwarded, whatever
  other events come in between.
\<close>

theorem local_seek_debounce:
  "(trace (onVideoSeeked now v s) \<noteq> trace s \<longleftrightarrow>
      \<not> isRemoteAction s \<and> socketOpen s \<and> now - lastSentSeek s > 300) \<and>
   (\<not> isRemoteAction s \<and> socketOpen s \<and> now - lastSentSeek s > 300 \<longrightarrow>
      trace (onVideoSeeked now v s) = trace s @ [Send (OutSeek (currentTime v))] \<and>
      lastSentSeek (onVideoSeeked now v s) = now) \<and>
   (\<not> (\<not> isRemoteAction s \<and> socketOpen s \<and> now - lastSentSeek s > 300) \<longrightarrow>
      onVideoSeeked now v s = s) \<and>
   (trace (onVideoSeeked now v s) \<noteq> trace s \<and> \<not> list_ex isSeekedEvent es \<and> later - now \<le> 300 \<longrightarrow>
      onVideoSeeked later v' (run es (onVideoSeeked now v s)) = run es (onVideoSeeked now v s))"
proof -
  let ?go = "\<not> isRemoteAction s \<and> socketOpen s \<and> now - lastSentSeek s > 300"
  have a: "trace (onVideoSeeked now v s) \<noteq> trace s \<longleftrightarrow> ?go"
    by (simp add: onVideoSeeked_def)
  have b: "?go \<longrightarrow> trace (onVideoSeeked now v s) = trace s @ [Send (OutSeek (currentTime v))] \<and>
      lastSentSeek (onVideoSeeked now v s) = now"
    by (simp add: onVideoSeeked_def)
  have c: "\<not> ?go \<longrightarrow> onVideoSeeked now v s = s"
    by (simp add: onVideoSeeked_def)
  have d: "trace (onVideoSeeked now v s) \<noteq> trace s \<and> \<not> list_ex isSeekedEvent es \<and> later - now \<le> 300 \<longrightarrow>
      onVideoSeeked later v' (run es (onVideoSeeked now v s)) = run es (onVideoSeeked now v s)"
  proof (intro impI, elim conjE)
    assume fwd: "trace (onVideoSeeked now v s) \<noteq> trace s" and es: "\<not> list_ex isSeekedEvent es"
      and near: "later - now \<le> 300"
    have "?go" by (rule iffD1[OF a fwd])
    then have "lastSentSeek (onVideoSeeked now v s) = now" by (simp add: onVideoSeeked_def)
    then have "lastSentSeek (run es (onVideoSeeked now v s)) = now"
      using lastSentSeek_run[OF es] by simp
    then show "onVideoSeeked later v' (run es (onVideoSeeked now v s)) = run es (onVideoSeeked now v s)"
      using near by (simp add: onVideoSeeked_def[of later])
  qed
  show ?thesis by (intro conjI a b c d)
qed

theorem local_seek_debounce_witness:
  "\<not> isRemoteAction watching \<and> socketOpen watching \<and> 2000 - lastSentSeek watching > 300 \<and>
   trace (onVideoSeeked 2000 \<lparr>currentTime = 30, paused = False\<rparr> watching) =
     trace watching @ [Send (OutSeek 30)] \<and>
   \<not> list_ex isSeekedEvent [VideoPlayEvent] \<and> (2200::int) - 2000 \<le> 300 \<and>
   onVideoSeeked 2200 \<lparr>currentTime = 40, paused = False\<rparr>
     (run [VideoPlayEvent] (onVideoSeeked 2000 \<lparr>currentTime = 30, paused = False\<rparr> watching)) =
   run [VideoPlayEvent] (onVideoSeeked 2000 \<lparr>currentTime = 30, paused = False\<rparr> watching) \<and>
   \<not> (\<not> isRemoteAction watching \<and> socketOpen watching \<and> 100 - lastSentSeek watching > 300) \<and>
   onVideoSeeked 100 \<lparr>currentTime = 30, paused = False\<rparr> watching = watching"
  using local_seek_debounce[where s = watching and now = 2000 and later = 2200
          and v = "\<lparr>currentTime = 30, paused = False\<rparr>"
          and v' = "\<lparr>currentTime = 40, paused = False\<rparr>" and es = "[VideoPlayEvent]"]
        local_seek_debounce[where s = watching and now = 100
          and v = "\<lparr>currentTime = 30, paused = False\<rparr>"]
  by (simp add: watching_facts)

text \<open>
  The claim as written fails twice. A seek is forwarded at 2000; the next one comes
  exactly 300 ms later, with the flag clear, and is not forwarded. And with the flag clear
  and 5000 ms gone, a seek is not forwarded once the socket has closed.
\<close>

theorem local_seek_debounce_counterexample:
  "\<not> isRemoteAction (step (VideoSeekedEvent 2000) watching) \<and>
   2300 - lastSentSeek (step (VideoSeekedEvent 2000) watching) \<ge> 300 \<and>
   step (VideoSeekedEvent 2300) (step (VideoSeekedEvent 2000) watching) =
     step (VideoSeekedEvent 2000) watching \<and>
   \<not> isRemoteAction (step (SocketClose 1) watching) \<and>
   5000 - lastSentSeek (step (SocketClose 1) watching) \<ge> 300 \<and>
   step (VideoSeekedEvent 5000) (step (SocketClose 1) watching) = step (SocketClose 1) watching"
  by (simp add: watching_eq joined_eq withVideo_def onVideoSeeked_def socketOpen_def send_def
      onclose_def markSocket_def setStatus_def clearInterval_def)

section \<open>Chat transcript\<close>

text \<open>
  C10. After \<open>addChatMessage\<close> the transcript has at most 100 messages: one more than
  before, cut to 100. What is left is the old list with the new message at its end, less
  some nodes at its front.
\<close>

theorem chat_transcript_bounded:
  "length (children (chatMessages (addChatMessage nick text isSystem s))) =
     min 100 (Suc (length (children (chatMessages s)))) \<and>
   length (children (chatMessages (addChatMessage nick text isSystem s))) \<le> 100 \<and>
   (\<exists>k. chatMessages (addChatMessage nick text isSystem s) =
         drop k (chatMessages s @ [if isSystem then SystemMsg text else UserMsg nick text])) \<and>
   last (chatMessages (addChatMessage nick text isSystem s)) =
     (if isSystem then SystemMsg text else UserMsg nick text)"
proof -
  let ?m = "if isSystem then SystemMsg text else UserMsg nick text"
  let ?ns = "chatMessages s @ [?m]"
  have cnt: "length (children ?ns) = Suc (length (children (chatMessages s)))"
    by (simp add: children_def isElement_def)
  have res: "chatMessages (addChatMessage nick text isSystem s) = removeOld ?ns"
    by (simp add: addChatMessage_def)
  have "length (children (removeOld ?ns)) = min 100 (Suc (length (children (chatMessages s))))"
    using removeOld_count[of ?ns] cnt by simp
  moreover have "\<exists>k. removeOld ?ns = drop k ?ns" by (rule removeOld_drop)
  moreover have "last (removeOld ?ns) = ?m" using removeOld_last[of ?ns] by simp
  ultimately show ?thesis unfolding res by simp
qed

section \<open>Close and error\<close>

text \<open>
  What the two handlers do. The close handler removes the timers whose handles are in
  \<open>pingInterval\<close> and \<open>syncInterval\<close>, makes the role non-host and shows the disconnected
  status; in a reachable state no cadence timer is left. It opens no socket and adds no
  timer. The error handler sets the status line, which the close handler that follows it
  sets again: a socket that fails leaves the same state as one that closes.
\<close>

lemma close_handler_effect:
  "timers (onclose s) =
     filter (\<lambda>t. Some (tid t) \<noteq> pingInterval s \<and> Some (tid t) \<noteq> syncInterval s) (timers s) \<and>
   \<not> isHost (onclose s) \<and>
   statusText (onclose s) = js ''Disconnected'' \<and> statusDot (onclose s) = Disconnected \<and>
   trace (onclose s) = trace s \<and> socket (onclose s) = socket s \<and>
   (reachable s \<longrightarrow> cadenceTimers (onclose s) = []) \<and>
   onerror s = s\<lparr>statusText := js ''Connection failed'', statusDot := Error\<rparr>"
proof -
  have t: "timers (onclose s) =
     filter (\<lambda>t. Some (tid t) \<noteq> pingInterval s \<and> Some (tid t) \<noteq> syncInterval s) (timers s)"
    by (rule timers_onclose)
  have r: "reachable s \<longrightarrow> cadenceTimers (onclose s) = []"
  proof
    assume "reachable s"
    then have "handlesOk s" by (simp add: reachable_cadenceOk cadenceOk_handlesOk)
    then show "cadenceTimers (onclose s) = []" by (rule close_clears_cadence)
  qed
  have o: "\<not> isHost (onclose s) \<and>
   statusText (onclose s) = js ''Disconnected'' \<and> statusDot (onclose s) = Disconnected \<and>
   trace (onclose s) = trace s \<and> socket (onclose s) = socket s"
    by (simp add: onclose_def clearInterval_def setStatus_def split: option.splits)
  have e: "onerror s = s\<lparr>statusText := js ''Connection failed'', statusDot := Error\<rparr>"
    by (simp add: onerror_def setStatus_def)
  show ?thesis by (intro conjI t r e) (simp_all add: o)
qed

lemma error_then_close: "step (SocketError i) s = step (SocketClose i) s"
  by (simp add: onclose_def onerror_def setStatus_def markSocket_def clearInterval_def
      split: option.splits)

text \<open>
  C7 does not hold of the code. \<open>onopen\<close> stores the handle of the new heartbeat timer in
  \<open>pingInterval\<close> without clearing the timer the variable held, where
  \<open>startSyncIntervals\<close> clears before it arms. A host joins again while connected, and the
  new socket opens before the old one's close event arrives: now two heartbeat timers run,
  with handles 2 and 6, and \<open>pingInterval\<close> holds 6. Whichever socket then closes or
  fails, the close handler resets the role, removes the cadence timer and heartbeat 6 and
  shows the disconnected status, but heartbeat 2 stays, and goes on sending pings on the
  socket that is still open.
\<close>

theorem heartbeat_outlives_close:
  "reachable rejoined \<and> pingInterval rejoined = Some 6 \<and>
   map cb (timers rejoined) = [CbPing, CbHostReport, CbHideToast, CbPing] \<and>
   timers (step (SocketClose 2) rejoined) =
     [\<lparr>tid = 2, repeating = True, delay = 5000, cb = CbPing\<rparr>,
      \<lparr>tid = 5, repeating = False, delay = 2000, cb = CbHideToast\<rparr>] \<and>
   timers (step (SocketError 2) rejoined) = timers (step (SocketClose 2) rejoined) \<and>
   timers (step (SocketClose 1) rejoined) = timers (step (SocketClose 2) rejoined) \<and>
   \<not> isHost (step (SocketClose 2) rejoined) \<and>
   statusDot (step (SocketClose 2) rejoined) = Disconnected \<and>
   trace (step (SocketClose 2) rejoined) = trace rejoined \<and>
   trace (step (TimerFires 7000 2) (step (SocketClose 1) rejoined)) =
     trace rejoined @ [Send (Ping 7000)]"
  by (simp add: reachable_sessions)
     (simp add: rejoined_eq hosting_eq watching_eq joined_eq onclose_def onerror_def
      clearInterval_def setStatus_def markSocket_def fireTimer_def socketOpen_def send_def)

section \<open>Cadence\<close>

text \<open>
  C5. In every reachable state there is at most one cadence timer, and it is the one for
  the current role: the 5000 ms host report for the host, the 10000 ms sync poll
  otherwise; a non-host has no host-report timer and a host no sync-poll timer. A
  \<open>host_update\<close> that changes the role, and every \<open>state\<close> message, removes the timer whose
  handle is in \<open>syncInterval\<close> and arms the one for the new role, so that it is the only
  cadence timer afterwards. The close handler, which resets the role to non-host, removes
  the cadence timer and arms none.
\<close>

theorem cadence_matches_role:
  assumes "reachable s"
  shows "length (cadenceTimers s) \<le> 1 \<and>
         list_all (cadenceFor (isHost s)) (cadenceTimers s) \<and>
         (\<not> isHost s \<longrightarrow> list_all (\<lambda>t. cb t \<noteq> CbHostReport) (timers s)) \<and>
         (isHost s \<longrightarrow> list_all (\<lambda>t. cb t \<noteq> CbSyncPoll) (timers s)) \<and>
         (h \<noteq> isHost s \<longrightarrow>
            isHost (handleMessage now (HostUpdate h) s) = h \<and>
            cadenceTimers (handleMessage now (HostUpdate h) s) =
              [\<lparr>tid = nextTimer s, repeating = True,
                delay = (if h then HOST_REPORT_INTERVAL else SYNC_CHECK_INTERVAL),
                cb = (if h then CbHostReport else CbSyncPoll)\<rparr>] \<and>
            timers (handleMessage now (HostUpdate h) s) =
              filter (\<lambda>t. Some (tid t) \<noteq> syncInterval s) (timers s)
              @ [\<lparr>tid = nextTimer s, repeating = True,
                  delay = (if h then HOST_REPORT_INTERVAL else SYNC_CHECK_INTERVAL),
                  cb = (if h then CbHostReport else CbSyncPoll)\<rparr>]
              @ (if h then [\<lparr>tid = Suc (nextTimer s), repeating = False, delay = 2000,
                             cb = CbHideToast\<rparr>] else [])) \<and>
         isHost (handleMessage now (State n q h cur pos playing) s) = h \<and>
         cadenceTimers (handleMessage now (State n q h cur pos playing) s) =
           [\<lparr>tid = nextTimer s, repeating = True,
             delay = (if h then HOST_REPORT_INTERVAL else SYNC_CHECK_INTERVAL),
             cb = (if h then CbHostReport else CbSyncPoll)\<rparr>] \<and>
         \<not> isHost (onclose s) \<and> cadenceTimers (onclose s) = []"
proof -
  have ok: "cadenceOk s" using assms by (rule reachable_cadenceOk)
  then have hk: "handlesOk s" by (rule cadenceOk_handlesOk)
  note one = one_cadence[OF ok]
  note role = role_cadence(1)[OF ok]
  note noHost = role_cadence(2)[OF ok]
  note noPoll = role_cadence(3)[OF ok]
  have upd: "isHost (handleMessage now (HostUpdate h) s) = h \<and>
            cadenceTimers (handleMessage now (HostUpdate h) s) =
              [\<lparr>tid = nextTimer s, repeating = True,
                delay = (if h then HOST_REPORT_INTERVAL else SYNC_CHECK_INTERVAL),
                cb = (if h then CbHostReport else CbSyncPoll)\<rparr>] \<and>
            timers (handleMessage now (HostUpdate h) s) =
              filter (\<lambda>t. Some (tid t) \<noteq> syncInterval s) (timers s)
              @ [\<lparr>tid = nextTimer s, repeating = True,
                  delay = (if h then HOST_REPORT_INTERVAL else SYNC_CHECK_INTERVAL),
                  cb = (if h then CbHostReport else CbSyncPoll)\<rparr>]
              @ (if h then [\<lparr>tid = Suc (nextTimer s), repeating = False, delay = 2000,
                             cb = CbHideToast\<rparr>] else [])"
    if "h \<noteq> isHost s"
  proof -
    let ?s1 = "updateHostIndicator (s\<lparr>isHost := h\<rparr>)"
    have h1: "handlesOk ?s1" using hk by simp
    have c: "cadenceTimers (startSyncIntervals ?s1) =
       [\<lparr>tid = nextTimer s, repeating = True,
         delay = (if h then HOST_REPORT_INTERVAL else SYNC_CHECK_INTERVAL),
         cb = (if h then CbHostReport else CbSyncPoll)\<rparr>]"
      using cadence_after_startSync[OF h1] by simp
    have m: "handleMessage now (HostUpdate h) s =
       (if h then showToast (js ''You are now the host'') (startSyncIntervals ?s1)
        else startSyncIntervals ?s1)"
      using that by (simp add: Let_def)
    show ?thesis
    proof (cases h)
      case True
      then show ?thesis using c unfolding m by simp
    next
      case False
      then show ?thesis using c unfolding m by simp
    qed
  qed
  have st: "isHost (handleMessage now (State n q h cur pos playing) s) = h \<and>
         cadenceTimers (handleMessage now (State n q h cur pos playing) s) =
           [\<lparr>tid = nextTimer s, repeating = True,
             delay = (if h then HOST_REPORT_INTERVAL else SYNC_CHECK_INTERVAL),
             cb = (if h then CbHostReport else CbSyncPoll)\<rparr>]"
  proof -
    let ?s1 = "updateHostIndicator (s\<lparr>viewers := n, queue := q, isHost := h\<rparr>)"
    have h1: "handlesOk ?s1" using hk by simp
    have c: "cadenceTimers (startSyncIntervals ?s1) =
       [\<lparr>tid = nextTimer s, repeating = True,
         delay = (if h then HOST_REPORT_INTERVAL else SYNC_CHECK_INTERVAL),
         cb = (if h then CbHostReport else CbSyncPoll)\<rparr>]"
      using cadence_after_startSync[OF h1] by simp
    show ?thesis using c by (cases h) (simp_all add: Let_def split: option.splits)
  qed
  have upd': "h \<noteq> isHost s \<longrightarrow>
            isHost (handleMessage now (HostUpdate h) s) = h \<and>
            cadenceTimers (handleMessage now (HostUpdate h) s) =
              [\<lparr>tid = nextTimer s, repeating = True,
                delay = (if h then HOST_REPORT_INTERVAL else SYNC_CHECK_INTERVAL),
                cb = (if h then CbHostReport else CbSyncPoll)\<rparr>] \<and>
            timers (handleMessage now (HostUpdate h) s) =
              filter (\<lambda>t. Some (tid t) \<noteq> syncInterval s) (timers s)
              @ [\<lparr>tid = nextTimer s, repeating = True,
                  delay = (if h then HOST_REPORT_INTERVAL else SYNC_CHECK_INTERVAL),
                  cb = (if h then CbHostReport else CbSyncPoll)\<rparr>]
              @ (if h then [\<lparr>tid = Suc (nextTimer s), repeating = False, delay = 2000,
                             cb = CbHideToast\<rparr>] else [])"
    using upd by (rule impI)
  have cl: "\<not> isHost (onclose s)" by (simp add: onclose_def)
  show ?thesis
    by (intro conjI one role noHost noPoll upd' st[THEN conjunct1] st[THEN conjunct2] cl
          close_clears_cadence[OF hk])
qed

theorem cadence_matches_role_witness:
  "reachable watching \<and> reachable hosting \<and>
   cadenceTimers watching = [\<lparr>tid = 3, repeating = True, delay = 10000, cb = CbSyncPoll\<rparr>] \<and>
   \<not> isHost watching \<and> list_all (\<lambda>t. cb t \<noteq> CbHostReport) (timers watching) \<and>
   True \<noteq> isHost watching \<and>
   cadenceTimers (handleMessage 0 (HostUpdate True) watching) =
     [\<lparr>tid = 4, repeating = True, delay = 5000, cb = CbHostReport\<rparr>] \<and>
   isHost hosting \<and> list_all (\<lambda>t. cb t \<noteq> CbSyncPoll) (timers hosting) \<and>
   False \<noteq> isHost hosting \<and>
   cadenceTimers (handleMessage 0 (HostUpdate False) hosting) =
     [\<lparr>tid = 6, repeating = True, delay = 10000, cb = CbSyncPoll\<rparr>] \<and>
   list_all (\<lambda>t. cb t \<noteq> CbHostReport) (timers (handleMessage 0 (HostUpdate False) hosting))"
proof -
  have w: "reachable watching" and h: "reachable hosting" by (rule reachable_sessions)+
  have a: "cadenceTimers (handleMessage 0 (HostUpdate True) watching) =
     [\<lparr>tid = 4, repeating = True, delay = 5000, cb = CbHostReport\<rparr>]"
    using cadence_matches_role[OF w, where h = True and now = 0]
    by (simp add: watching_facts HOST_REPORT_INTERVAL_def)
  have b: "cadenceTimers (handleMessage 0 (HostUpdate False) hosting) =
     [\<lparr>tid = 6, repeating = True, delay = 10000, cb = CbSyncPoll\<rparr>] \<and>
     timers (handleMessage 0 (HostUpdate False) hosting) =
       filter (\<lambda>t. Some (tid t) \<noteq> syncInterval hosting) (timers hosting)
       @ [\<lparr>tid = 6, repeating = True, delay = 10000, cb = CbSyncPoll\<rparr>]"
    using cadence_matches_role[OF h, where h = False and now = 0]
    by (simp add: session_cadence SYNC_CHECK_INTERVAL_def)
  have c: "list_all (\<lambda>t. cb t \<noteq> CbHostReport) (timers (handleMessage 0 (HostUpdate False) hosting))"
    using b by (simp add: session_cadence) (simp add: hosting_eq watching_eq joined_eq)
  have d: "list_all (\<lambda>t. cb t \<noteq> CbHostReport) (timers watching)"
    using cadence_matches_role[OF w] by (simp add: watching_facts)
  have e: "list_all (\<lambda>t. cb t \<noteq> CbSyncPoll) (timers hosting)"
    using cadence_matches_role[OF h] by (simp add: session_cadence)
  from w h a b c d e show ?thesis by (simp add: session_cadence watching_facts)
qed

section \<open>Connecting\<close>

text \<open>
  \<open>connect\<close> itself tests the length of the trimmed field: if it is not 6, only the status
  line changes, to the error state; if it is 6, the current socket, if any, is closed and
  then the new one is created (unless the constructor throws).
\<close>

lemma connect_length_test:
  "(length (trim (roomInput s)) \<noteq> 6 \<longrightarrow>
      connect s = s\<lparr>statusText := js ''Enter 6-char code'', statusDot := Error\<rparr>) \<and>
   (length (trim (roomInput s)) = 6 \<longrightarrow>
      trace (connect s) =
        trace s
        @ (case socket s of None \<Rightarrow> [] | Some w \<Rightarrow> [WsClose (wsId w)])
        @ (if 35 \<in> set (trim (roomInput s)) then []
           else [WsNew (nextSocket s) (trim (roomInput s))]))"
  by (simp add: connect_def setStatus_def newWebSocket_def wsClose_def split: option.splits)

text \<open>
  C6. The room code \<open>connect\<close> reads is the text of the room-code field, which in every
  reachable state holds at most six characters of \<open>0-9A-Z\<close>: the script sets it from the
  checked URL parameter or draws it, and the input listener of the field upper-cases what
  the viewer types, drops every other character and cuts after six. For every such code
  that is not in the format \<open>connect\<close> changes the status line to the error state and
  nothing else: no socket is closed, none is created. For a code in the format the current
  socket, if any, is closed and then the new one is created.
\<close>

theorem connect_rejects_malformed_code:
  assumes "reachable s"
  shows "(\<not> validCode (trim (roomInput s)) \<longrightarrow>
            connect s = s\<lparr>statusText := js ''Enter 6-char code'', statusDot := Error\<rparr> \<and>
            statusDot (connect s) = Error \<and> trace (connect s) = trace s \<and>
            socket (connect s) = socket s) \<and>
         (validCode (trim (roomInput s)) \<longrightarrow>
            trace (connect s) =
              trace s
              @ (case socket s of None \<Rightarrow> [] | Some w \<Rightarrow> [WsClose (wsId w)])
              @ [WsNew (nextSocket s) (trim (roomInput s))])"
proof -
  have cf: "list_all isCodeChar (roomInput s)"
    using reachable_codeField[OF assms] by (simp add: codeField_def)
  then have t: "trim (roomInput s) = roomInput s" by (rule trim_code)
  have no_hash: "35 \<notin> set (trim (roomInput s))"
    unfolding t using cf by (auto simp: list_all_iff isCodeChar_def)
  have bad: "\<not> validCode (trim (roomInput s)) \<longrightarrow>
            connect s = s\<lparr>statusText := js ''Enter 6-char code'', statusDot := Error\<rparr> \<and>
            statusDot (connect s) = Error \<and> trace (connect s) = trace s \<and>
            socket (connect s) = socket s"
  proof
    assume "\<not> validCode (trim (roomInput s))"
    then have "length (trim (roomInput s)) \<noteq> 6"
      unfolding t using cf by (simp add: validCode_def)
    then have eq: "connect s = s\<lparr>statusText := js ''Enter 6-char code'', statusDot := Error\<rparr>"
      by (rule mp[OF conjunct1[OF connect_length_test]])
    show "connect s = s\<lparr>statusText := js ''Enter 6-char code'', statusDot := Error\<rparr> \<and>
            statusDot (connect s) = Error \<and> trace (connect s) = trace s \<and>
            socket (connect s) = socket s"
      unfolding eq by simp
  qed
  have good: "validCode (trim (roomInput s)) \<longrightarrow>
            trace (connect s) =
              trace s
              @ (case socket s of None \<Rightarrow> [] | Some w \<Rightarrow> [WsClose (wsId w)])
              @ [WsNew (nextSocket s) (trim (roomInput s))]"
  proof
    assume "validCode (trim (roomInput s))"
    then have "length (trim (roomInput s)) = 6" by (simp add: validCode_def)
    then have "trace (connect s) =
        trace s
        @ (case socket s of None \<Rightarrow> [] | Some w \<Rightarrow> [WsClose (wsId w)])
        @ (if 35 \<in> set (trim (roomInput s)) then []
           else [WsNew (nextSocket s) (trim (roomInput s))])"
      by (rule mp[OF conjunct2[OF connect_length_test]])
    then show "trace (connect s) =
              trace s
              @ (case socket s of None \<Rightarrow> [] | Some w \<Rightarrow> [WsClose (wsId w)])
              @ [WsNew (nextSocket s) (trim (roomInput s))]"
      using no_hash by simp
  qed
  show ?thesis by (intro conjI bad good)
qed

theorem connect_rejects_malformed_code_witness:
  "reachable joined \<and> validCode (trim (roomInput joined)) \<and>
   trace (connect joined) = trace joined @ [WsClose 1, WsNew 2 (js ''000000'')] \<and>
   reachable (step (RoomInput (js ''AB'')) joined) \<and>
   \<not> validCode (trim (roomInput (step (RoomInput (js ''AB'')) joined))) \<and>
   statusDot (connect (step (RoomInput (js ''AB'')) joined)) = Error \<and>
   trace (connect (step (RoomInput (js ''AB'')) joined)) =
     trace (step (RoomInput (js ''AB'')) joined) \<and>
   socket (connect (step (RoomInput (js ''AB'')) joined)) =
     socket (step (RoomInput (js ''AB'')) joined)"
proof -
  let ?short = "step (RoomInput (js ''AB'')) joined"
  have r1: "reachable joined" by (rule reachable_sessions)
  have r2: "reachable ?short" by (rule reachable.after[OF r1])
  have j: "socket joined = Some \<lparr>wsId = 1, readyState = OPEN\<rparr>" "nextSocket joined = 2"
    "roomInput joined = js ''000000''"
    by (simp_all add: joined_eq)
  have tz: "trim (js ''000000'') = js ''000000''"
    by (simp add: js_def trim_def isWhiteSpace_def)
  have tj: "trim (roomInput joined) = js ''000000''"
    unfolding j by (rule tz)
  have v: "validCode (trim (roomInput joined))"
    unfolding tj by (simp add: js_def validCode_def isCodeChar_def)
  have a: "trace (connect joined) = trace joined @ [WsClose 1, WsNew 2 (js ''000000'')]"
    using mp[OF conjunct2[OF connect_rejects_malformed_code[OF r1]] v] by (simp add: j tz)
  have ts: "trim (roomInput ?short) = js ''AB''"
    unfolding shortCode_eq by (simp add: js_def trim_def isWhiteSpace_def)
  have nv: "\<not> validCode (trim (roomInput ?short))"
    unfolding ts by (simp add: js_def validCode_def)
  note b = mp[OF conjunct1[OF connect_rejects_malformed_code[OF r2]] nv]
  show ?thesis
    by (intro conjI r1 r2 v a nv b[THEN conjunct2, THEN conjunct1]
          b[THEN conjunct2, THEN conjunct2, THEN conjunct1]
          b[THEN conjunct2, THEN conjunct2, THEN conjunct2])
qed

end
